theory Spec2Isabelle
  imports Complex_Main
begin

section \<open>Data model\<close>

text \<open>
  The notebook \<^verbatim>\<open>04-optimizers.ipynb\<close> works on torch tensors. A tensor is modelled
  by the flat list of its elements, and its shape by the length of that list; the
  elements are real numbers, so rounding, infinities and NaN of the floating-point
  tensors are outside the model. Every arithmetic operation of the notebook is
  element-wise.
\<close>

type_synonym tensor = "real list"

text \<open>
  A parameter is a mutable object with an identity. The store maps the identity of a
  parameter to its current value \<open>data\<close> and its gradient \<open>grad\<close>, which is
  \<open>None\<close> when the differentiation engine has produced none. Object references never
  dangle in Python, so the store is total.
\<close>

type_synonym param_id = nat

record param =
  data :: tensor
  grad :: "tensor option"

type_synonym store = "param_id \<Rightarrow> param"

text \<open>
  A parameter group is the dictionary \<^verbatim>\<open>{"params": [...], "lr": lr, "momentum": momentum}\<close>
  that \<^verbatim>\<open>SGD_Alternate.__init__\<close> hands to the constructor of the base class.
\<close>

record param_group =
  params :: "param_id list"
  lr :: real
  momentum :: real

text \<open>
  The per-parameter state dictionary of \<^verbatim>\<open>SGD_Alternate\<close>: the only key the class
  reads or writes is \<^verbatim>\<open>"momentum_buffer"\<close>; \<open>None\<close> is what \<^verbatim>\<open>state.get\<close> returns
  when the key is missing.
\<close>

record state_rec =
  momentum_buffer :: "tensor option"

text \<open>
  \<^verbatim>\<open>self.state\<close> maps a parameter to its state dictionary; a parameter that was never
  updated has no entry.
\<close>

type_synonym opt_state = "param_id \<rightharpoonup> state_rec"

record optimizer =
  param_groups :: "param_group list"
  state :: opt_state

datatype error = ShapeError | IndexError | StateMismatchError | UnboundLocalError | TypeError

section \<open>Tensor operations\<close>

text \<open>
  \<^verbatim>\<open>param.grad * pg["lr"]\<close> and \<^verbatim>\<open>pg["lr"] * param.grad\<close>: a tensor times a Python
  float, a fresh tensor.
\<close>

definition scale :: "real \<Rightarrow> tensor \<Rightarrow> tensor" where
  "scale c x = map (\<lambda>a. c * a) x"

text \<open>\<^verbatim>\<open>M.mul_(c)\<close>: every element of \<open>M\<close> is multiplied by the number \<open>c\<close>, in place.\<close>

definition mul_inplace :: "tensor \<Rightarrow> real \<Rightarrow> tensor" where
  "mul_inplace M c = map (\<lambda>a. a * c) M"

text \<open>
  \<^verbatim>\<open>x.add_(y)\<close> and \<^verbatim>\<open>x.sub_(y)\<close> write into \<open>x\<close>. The gradient of a parameter always
  has the shape of the parameter (torch refuses any other assignment to \<^verbatim>\<open>.grad\<close>),
  so operands of different shapes can only meet when a momentum buffer of a foreign
  shape sits in the state. For flat tensors of different lengths one of the two
  in-place operations of an update then raises a RuntimeError; the model reports
  \<open>ShapeError\<close> and drops the partially updated state.
\<close>

definition add_inplace :: "tensor \<Rightarrow> tensor \<Rightarrow> error + tensor" where
  "add_inplace x y =
     (if length x = length y then Inr (map2 (\<lambda>a b. a + b) x y) else Inl ShapeError)"

definition sub_inplace :: "tensor \<Rightarrow> tensor \<Rightarrow> error + tensor" where
  "sub_inplace x y =
     (if length x = length y then Inr (map2 (\<lambda>a b. a - b) x y) else Inl ShapeError)"

section \<open>\<^verbatim>\<open>SGD_Alternate.step\<close>\<close>

text \<open>
  Modelled from the spec: \<^verbatim>\<open>self.state\<close> is created by the constructor of
  \<^verbatim>\<open>torch.optim.Optimizer\<close>, which is not part of the notebook. The spec
  (\<open>get_or_init\<close>) has the state record of a parameter created empty on first access,
  so \<^verbatim>\<open>self.state[param]\<close> of a parameter without entry is the empty dictionary.
\<close>

definition get_or_init :: "opt_state \<Rightarrow> param_id \<Rightarrow> state_rec" where
  "get_or_init os p = (case os p of None \<Rightarrow> \<lparr>momentum_buffer = None\<rparr> | Some r \<Rightarrow> r)"

text \<open>
  The body of the inner loop of \<^verbatim>\<open>step\<close> for the parameter \<open>p\<close> of group \<open>pg\<close>:
  \<^verbatim>\<open>
  if param.grad is not None:
      state = self.state[param]
      M = state.get("momentum_buffer")
      if M is not None:
          M.mul_(pg["momentum"]).add_(param.grad * pg["lr"])
      else:
          M = pg["lr"] * param.grad
          state["momentum_buffer"] = M
      param.sub_(M)
  \<close>
  In the first branch \<open>M\<close> is the tensor held by the state dictionary, so the in-place
  update changes the stored buffer.
\<close>

definition update_param ::
  "param_group \<Rightarrow> param_id \<Rightarrow> store \<times> opt_state \<Rightarrow> error + (store \<times> opt_state)" where
  "update_param pg p s =
     (case s of (st, os) \<Rightarrow>
        (case grad (st p) of
           None \<Rightarrow> Inr (st, os)
         | Some g \<Rightarrow>
             (let rec = get_or_init os p in
              (case momentum_buffer rec of
                 Some M \<Rightarrow>
                   (case add_inplace (mul_inplace M (momentum pg)) (scale (lr pg) g) of
                      Inl e \<Rightarrow> Inl e
                    | Inr M' \<Rightarrow>
                        (case sub_inplace (data (st p)) M' of
                           Inl e \<Rightarrow> Inl e
                         | Inr d \<Rightarrow>
                             Inr (st(p := (st p)\<lparr>data := d\<rparr>),
                                  os(p \<mapsto> rec\<lparr>momentum_buffer := Some M'\<rparr>))))
               | None \<Rightarrow>
                   (let M = scale (lr pg) g in
                    (case sub_inplace (data (st p)) M of
                       Inl e \<Rightarrow> Inl e
                     | Inr d \<Rightarrow>
                         Inr (st(p := (st p)\<lparr>data := d\<rparr>),
                              os(p \<mapsto> rec\<lparr>momentum_buffer := Some M\<rparr>))))))))"

text \<open>\<^verbatim>\<open>for param in pg["params"]\<close>: the parameters of one group, in order.\<close>

fun step_params ::
  "param_group \<Rightarrow> param_id list \<Rightarrow> store \<times> opt_state \<Rightarrow> error + (store \<times> opt_state)" where
  "step_params pg [] s = Inr s"
| "step_params pg (p # ps) s =
     (case update_param pg p s of Inl e \<Rightarrow> Inl e | Inr s' \<Rightarrow> step_params pg ps s')"

text \<open>\<^verbatim>\<open>for pg in self.param_groups\<close>: the groups, in order.\<close>

fun step_groups ::
  "param_group list \<Rightarrow> store \<times> opt_state \<Rightarrow> error + (store \<times> opt_state)" where
  "step_groups [] s = Inr s"
| "step_groups (pg # pgs) s =
     (case step_params pg (params pg) s of Inl e \<Rightarrow> Inl e | Inr s' \<Rightarrow> step_groups pgs s')"

text \<open>
  \<^verbatim>\<open>step\<close> reads the groups of the optimizer at the moment of the call and changes
  parameters and state only.
\<close>

definition step :: "store \<Rightarrow> optimizer \<Rightarrow> error + (store \<times> optimizer)" where
  "step st opt =
     (case step_groups (param_groups opt) (st, state opt) of
        Inl e \<Rightarrow> Inl e
      | Inr (st', os') \<Rightarrow> Inr (st', opt\<lparr>state := os'\<rparr>))"

section \<open>Well-formed optimizers\<close>

text \<open>All parameters the optimizer iterates over, in the order \<^verbatim>\<open>step\<close> visits them.\<close>

definition all_params :: "optimizer \<Rightarrow> param_id list" where
  "all_params opt = concat (map params (param_groups opt))"

text \<open>
  The invariants of the spec's data model: the gradient of a parameter has the shape
  of the parameter, and so has every tensor of its state record. The third invariant,
  that no parameter occurs twice in the groups, is \<open>distinct (all_params opt)\<close>.
\<close>

definition grad_shape_ok :: "store \<Rightarrow> param_id \<Rightarrow> bool" where
  "grad_shape_ok st p =
     (case grad (st p) of None \<Rightarrow> True | Some g \<Rightarrow> length g = length (data (st p)))"

definition state_shape_ok :: "store \<Rightarrow> opt_state \<Rightarrow> param_id \<Rightarrow> bool" where
  "state_shape_ok st os p =
     (case momentum_buffer (get_or_init os p) of
        None \<Rightarrow> True
      | Some M \<Rightarrow> length M = length (data (st p)))"

definition shapes_ok :: "store \<Rightarrow> opt_state \<Rightarrow> param_id list \<Rightarrow> bool" where
  "shapes_ok st os ps = list_all (\<lambda>p. grad_shape_ok st p \<and> state_shape_ok st os p) ps"

text \<open>
  What \<open>update_param\<close> computes when no shape error occurs, written without the
  checks: the buffer after the update, and store and state after the update.
\<close>

definition new_buffer :: "param_group \<Rightarrow> tensor \<Rightarrow> tensor option \<Rightarrow> tensor" where
  "new_buffer pg g buf =
     (case buf of
        Some M \<Rightarrow> map2 (\<lambda>a b. a + b) (mul_inplace M (momentum pg)) (scale (lr pg) g)
      | None \<Rightarrow> scale (lr pg) g)"

definition updated :: "param_group \<Rightarrow> param_id \<Rightarrow> store \<times> opt_state \<Rightarrow> store \<times> opt_state" where
  "updated pg p s =
     (case s of (st, os) \<Rightarrow>
        (case grad (st p) of
           None \<Rightarrow> (st, os)
         | Some g \<Rightarrow>
             (let M = new_buffer pg g (momentum_buffer (get_or_init os p)) in
              (st(p := (st p)\<lparr>data := map2 (\<lambda>a b. a - b) (data (st p)) M\<rparr>),
               os(p \<mapsto> (get_or_init os p)\<lparr>momentum_buffer := Some M\<rparr>)))))"

section \<open>Writing hyperparameters\<close>

text \<open>
  The keys of a group of \<^verbatim>\<open>SGD_Alternate\<close> that hold hyperparameters, and the
  dictionary read \<^verbatim>\<open>pg[key]\<close> and write \<^verbatim>\<open>pg[key] = v\<close>.
\<close>

datatype hyper = Lr | Momentum

fun get_hyper :: "hyper \<Rightarrow> param_group \<Rightarrow> real" where
  "get_hyper Lr pg = lr pg"
| "get_hyper Momentum pg = momentum pg"

fun set_hyper :: "hyper \<Rightarrow> real \<Rightarrow> param_group \<Rightarrow> param_group" where
  "set_hyper Lr v pg = pg\<lparr>lr := v\<rparr>"
| "set_hyper Momentum v pg = pg\<lparr>momentum := v\<rparr>"

text \<open>The write \<^verbatim>\<open>pg[key] = v\<close> on the group at position \<open>j\<close> of the list of groups.\<close>

definition put_hyper :: "nat \<Rightarrow> hyper \<Rightarrow> real \<Rightarrow> optimizer \<Rightarrow> optimizer" where
  "put_hyper j key v opt =
     opt\<lparr>param_groups := (param_groups opt)[j := set_hyper key v (param_groups opt ! j)]\<rparr>"

text \<open>
  \<^verbatim>\<open>optimizer.param_groups[i][key] = v\<close>, as in
  \<^verbatim>\<open>optimizer.param_groups[0]["momentum"] = 0.8\<close>. The list of groups is indexed the
  Python way: \<open>i\<close> from 0 up to the number of groups selects from the front, \<open>-1\<close>
  down to minus the number of groups from the back, anything else raises IndexError.
  The statement changes the dictionary of the group and nothing else: parameters and
  optimizer state are not among its operands.
\<close>

definition write_hyper :: "int \<Rightarrow> hyper \<Rightarrow> real \<Rightarrow> optimizer \<Rightarrow> error + optimizer" where
  "write_hyper i key v opt =
     (if 0 \<le> i \<and> i < int (length (param_groups opt))
      then Inr (put_hyper (nat i) key v opt)
      else if i < 0 \<and> - i \<le> int (length (param_groups opt))
      then Inr (put_hyper (nat (int (length (param_groups opt)) + i)) key v opt)
      else Inl IndexError)"

section \<open>Checkpoints\<close>

text \<open>
  Modelled from the spec: \<^verbatim>\<open>optimizer.state_dict()\<close> and its inverse are methods of
  \<^verbatim>\<open>torch.optim.Optimizer\<close>, which is not part of the notebook. In the spec the export
  of the optimizer state is a self-contained mapping from parameter identity to state
  record, and the import replaces the current state by the snapshot as a whole, or
  fails with \<open>StateMismatchError\<close> when a record of the snapshot has a tensor whose
  shape is not that of the live parameter.
\<close>

definition export_state :: "optimizer \<Rightarrow> opt_state" where
  "export_state opt = state opt"

definition import_state :: "store \<Rightarrow> opt_state \<Rightarrow> optimizer \<Rightarrow> error + optimizer" where
  "import_state st snapshot opt =
     (if list_all (state_shape_ok st snapshot) (all_params opt)
      then Inr (opt\<lparr>state := snapshot\<rparr>)
      else Inl StateMismatchError)"

text \<open>
  The values of the checkpoint dictionary. \<^verbatim>\<open>model.state_dict()\<close> belongs to the
  model class, which the notebook imports; its result is kept abstract as \<open>'m\<close>.
\<close>

datatype 'm ckpt_value = Parameters 'm | OptimizerState opt_state | Epoch nat

type_synonym 'm checkpoint = "string \<rightharpoonup> 'm ckpt_value"

text \<open>
  \<^verbatim>\<open>
  checkpoint_dict = {
      "parameters": model.state_dict(),
      "optimizer": optimizer.state_dict(),
      "epoch": epoch
  }
  \<close>
\<close>

definition checkpoint_dict :: "'m \<Rightarrow> opt_state \<Rightarrow> nat \<Rightarrow> 'm checkpoint" where
  "checkpoint_dict model_sd optimizer_sd epoch =
     [''parameters'' \<mapsto> Parameters model_sd,
      ''optimizer'' \<mapsto> OptimizerState optimizer_sd,
      ''epoch'' \<mapsto> Epoch epoch]"

section \<open>\<^verbatim>\<open>train_epoch\<close> and its calls\<close>

text \<open>
  \<^verbatim>\<open>
  def train_epoch(model, dataloader, loss_fn, optimizer, loss_meter,
                  performance_meter, performance, device):
  \<close>
  has eight parameters and no default value, so a call must bind all eight: a Python
  call with another number of positional arguments (and no keywords) raises a
  TypeError before the body runs. \<open>te\<close> stands for the body of the function, which
  sends the batches of the data loader through the differentiation engine and calls
  \<^verbatim>\<open>optimizer.step()\<close> after each; \<open>n_args\<close> is the number of arguments the call
  passes.
\<close>

definition call_train_epoch ::
  "nat \<Rightarrow> (store \<times> optimizer \<Rightarrow> error + (store \<times> optimizer)) \<Rightarrow>
   store \<times> optimizer \<Rightarrow> error + (store \<times> optimizer)" where
  "call_train_epoch n_args te s = (if n_args = 8 then te s else Inl TypeError)"

text \<open>
  What the epoch loops work on: the parameters, the optimizer, and the content of the
  checkpoint file (\<open>None\<close> as long as nothing has been saved).
\<close>

record 'm run =
  run_store :: store
  run_optimizer :: optimizer
  saved :: "'m checkpoint option"

section \<open>The first \<^verbatim>\<open>train_model\<close>\<close>

text \<open>
  One iteration of the epoch loop of the first version of \<^verbatim>\<open>train_model\<close>. Its call
  \<^verbatim>\<open>train_epoch(model, dataloader, loss_fn, optimizer, loss_meter, performance_meter,
  performance, device)\<close> passes eight arguments. \<open>model_sd\<close> stands for
  \<^verbatim>\<open>model.state_dict()\<close>. The checkpoint is written only when neither
  \<^verbatim>\<open>checkpoint_name\<close> nor \<^verbatim>\<open>checkpoint_loc\<close> is \<open>None\<close>, and each one overwrites the
  file. Creating the folder and writing the file are input and output of the notebook
  and are not modelled beyond the content of the file.
\<close>

definition epoch_body ::
  "(store \<times> optimizer \<Rightarrow> error + (store \<times> optimizer)) \<Rightarrow> (store \<Rightarrow> 'm) \<Rightarrow>
   string option \<Rightarrow> string option \<Rightarrow> nat \<Rightarrow> 'm run \<Rightarrow> error + 'm run" where
  "epoch_body te model_sd checkpoint_loc checkpoint_name epoch r =
     (case call_train_epoch 8 te (run_store r, run_optimizer r) of
        Inl e \<Rightarrow> Inl e
      | Inr (st', opt') \<Rightarrow>
          Inr \<lparr>run_store = st', run_optimizer = opt',
               saved = (if checkpoint_name \<noteq> None \<and> checkpoint_loc \<noteq> None
                        then Some (checkpoint_dict (model_sd st') (export_state opt') epoch)
                        else saved r)\<rparr>)"

text \<open>\<^verbatim>\<open>for epoch in range(num_epochs)\<close>, over the list of the epochs still to run.\<close>

fun train_loop ::
  "(store \<times> optimizer \<Rightarrow> error + (store \<times> optimizer)) \<Rightarrow> (store \<Rightarrow> 'm) \<Rightarrow>
   string option \<Rightarrow> string option \<Rightarrow> nat list \<Rightarrow> 'm run \<Rightarrow> error + 'm run" where
  "train_loop te model_sd checkpoint_loc checkpoint_name [] r = Inr r"
| "train_loop te model_sd checkpoint_loc checkpoint_name (epoch # epochs) r =
     (case epoch_body te model_sd checkpoint_loc checkpoint_name epoch r of
        Inl e \<Rightarrow> Inl e
      | Inr r' \<Rightarrow> train_loop te model_sd checkpoint_loc checkpoint_name epochs r')"

text \<open>
  \<^verbatim>\<open>train_model\<close> returns the meters of the last epoch; they exist only when the loop
  has run at least once, so \<^verbatim>\<open>num_epochs = 0\<close> ends in an UnboundLocalError. The
  meters themselves are not modelled: the result is the final content of the loop
  state.
\<close>

definition train_model ::
  "(store \<times> optimizer \<Rightarrow> error + (store \<times> optimizer)) \<Rightarrow> (store \<Rightarrow> 'm) \<Rightarrow>
   string option \<Rightarrow> string option \<Rightarrow> nat \<Rightarrow> 'm run \<Rightarrow> error + 'm run" where
  "train_model te model_sd checkpoint_loc checkpoint_name num_epochs r =
     (if num_epochs = 0 then Inl UnboundLocalError
      else train_loop te model_sd checkpoint_loc checkpoint_name [0..<num_epochs] r)"

section \<open>\<^verbatim>\<open>train_model\<close> with the stepwise decay of the learning rate\<close>

text \<open>
  The head of the epoch loop of the second version:
  \<^verbatim>\<open>
  if epoch in (6, 11):
      for pg in optimizer.param_groups:
          pg["lr"] *= .1
  \<close>
\<close>

definition decay_lr :: "nat \<Rightarrow> optimizer \<Rightarrow> optimizer" where
  "decay_lr epoch opt =
     (if epoch = 6 \<or> epoch = 11
      then opt\<lparr>param_groups := map (\<lambda>pg. pg\<lparr>lr := lr pg * (1 / 10)\<rparr>) (param_groups opt)\<rparr>
      else opt)"

text \<open>
  One iteration of the epoch loop of the second version: the decay, then the call
  \<^verbatim>\<open>train_epoch(model, dataloader, loss_fn, optimizer, loss_meter, performance_meter,
  performance)\<close>, which passes seven arguments, then the checkpoint as in the first
  version.
\<close>

definition epoch_body_decay ::
  "(store \<times> optimizer \<Rightarrow> error + (store \<times> optimizer)) \<Rightarrow> (store \<Rightarrow> 'm) \<Rightarrow>
   string option \<Rightarrow> string option \<Rightarrow> nat \<Rightarrow> 'm run \<Rightarrow> error + 'm run" where
  "epoch_body_decay te model_sd checkpoint_loc checkpoint_name epoch r =
     (case call_train_epoch 7 te (run_store r, decay_lr epoch (run_optimizer r)) of
        Inl e \<Rightarrow> Inl e
      | Inr (st', opt') \<Rightarrow>
          Inr \<lparr>run_store = st', run_optimizer = opt',
               saved = (if checkpoint_name \<noteq> None \<and> checkpoint_loc \<noteq> None
                        then Some (checkpoint_dict (model_sd st') (export_state opt') epoch)
                        else saved r)\<rparr>)"

fun train_loop_decay ::
  "(store \<times> optimizer \<Rightarrow> error + (store \<times> optimizer)) \<Rightarrow> (store \<Rightarrow> 'm) \<Rightarrow>
   string option \<Rightarrow> string option \<Rightarrow> nat list \<Rightarrow> 'm run \<Rightarrow> error + 'm run" where
  "train_loop_decay te model_sd checkpoint_loc checkpoint_name [] r = Inr r"
| "train_loop_decay te model_sd checkpoint_loc checkpoint_name (epoch # epochs) r =
     (case epoch_body_decay te model_sd checkpoint_loc checkpoint_name epoch r of
        Inl e \<Rightarrow> Inl e
      | Inr r' \<Rightarrow> train_loop_decay te model_sd checkpoint_loc checkpoint_name epochs r')"

definition train_model_decay ::
  "(store \<times> optimizer \<Rightarrow> error + (store \<times> optimizer)) \<Rightarrow> (store \<Rightarrow> 'm) \<Rightarrow>
   string option \<Rightarrow> string option \<Rightarrow> nat \<Rightarrow> 'm run \<Rightarrow> error + 'm run" where
  "train_model_decay te model_sd checkpoint_loc checkpoint_name num_epochs r =
     (if num_epochs = 0 then Inl UnboundLocalError
      else train_loop_decay te model_sd checkpoint_loc checkpoint_name [0..<num_epochs] r)"

section \<open>\<^verbatim>\<open>train_model\<close> with a learning-rate scheduler\<close>

text \<open>
  Modelled from the spec: the scheduler passed to the third version of \<^verbatim>\<open>train_model\<close>
  is \<^verbatim>\<open>torch.optim.lr_scheduler.MultiStepLR(optimizer, milestones=[6, 11], gamma=.1)\<close>,
  whose class is not part of the notebook. The MultiStep scheduler of the spec keeps
  a counter that starts at 0; a tick advances it, and when the new value is one of the
  milestones every group's \<open>lr\<close> is multiplied by \<open>gamma\<close>.
\<close>

record scheduler =
  counter :: nat
  milestones :: "nat list"
  gamma :: real

definition tick :: "scheduler \<Rightarrow> optimizer \<Rightarrow> scheduler \<times> optimizer" where
  "tick sch opt =
     (let t = Suc (counter sch)
      in (sch\<lparr>counter := t\<rparr>,
          if t \<in> set (milestones sch)
          then opt\<lparr>param_groups := map (\<lambda>pg. pg\<lparr>lr := lr pg * gamma sch\<rparr>) (param_groups opt)\<rparr>
          else opt))"

text \<open>The loop state of this version has the scheduler as well, \<open>None\<close> when none is passed.\<close>

record 'm scheduled_run = "'m run" +
  lr_scheduler :: "scheduler option"

text \<open>
  One iteration of the epoch loop of the third version: the call of \<^verbatim>\<open>train_epoch\<close>,
  again with seven arguments, the checkpoint as in the first version, and then
  \<^verbatim>\<open>
  if lr_scheduler is not None:
      lr_scheduler.step()
  \<close>
\<close>

definition epoch_body_scheduled ::
  "(store \<times> optimizer \<Rightarrow> error + (store \<times> optimizer)) \<Rightarrow> (store \<Rightarrow> 'm) \<Rightarrow>
   string option \<Rightarrow> string option \<Rightarrow> nat \<Rightarrow> 'm scheduled_run \<Rightarrow> error + 'm scheduled_run" where
  "epoch_body_scheduled te model_sd checkpoint_loc checkpoint_name epoch r =
     (case call_train_epoch 7 te (run_store r, run_optimizer r) of
        Inl e \<Rightarrow> Inl e
      | Inr (st', opt') \<Rightarrow>
          (let file = (if checkpoint_name \<noteq> None \<and> checkpoint_loc \<noteq> None
                       then Some (checkpoint_dict (model_sd st') (export_state opt') epoch)
                       else saved r)
           in (case lr_scheduler r of
                 None \<Rightarrow>
                   Inr \<lparr>run_store = st', run_optimizer = opt', saved = file,
                        lr_scheduler = None\<rparr>
               | Some sch \<Rightarrow>
                   (case tick sch opt' of
                      (sch', opt'') \<Rightarrow>
                        Inr \<lparr>run_store = st', run_optimizer = opt'', saved = file,
                             lr_scheduler = Some sch'\<rparr>))))"

fun train_loop_scheduled ::
  "(store \<times> optimizer \<Rightarrow> error + (store \<times> optimizer)) \<Rightarrow> (store \<Rightarrow> 'm) \<Rightarrow>
   string option \<Rightarrow> string option \<Rightarrow> nat list \<Rightarrow> 'm scheduled_run \<Rightarrow> error + 'm scheduled_run" where
  "train_loop_scheduled te model_sd checkpoint_loc checkpoint_name [] r = Inr r"
| "train_loop_scheduled te model_sd checkpoint_loc checkpoint_name (epoch # epochs) r =
     (case epoch_body_scheduled te model_sd checkpoint_loc checkpoint_name epoch r of
        Inl e \<Rightarrow> Inl e
      | Inr r' \<Rightarrow> train_loop_scheduled te model_sd checkpoint_loc checkpoint_name epochs r')"

definition train_model_scheduled ::
  "(store \<times> optimizer \<Rightarrow> error + (store \<times> optimizer)) \<Rightarrow> (store \<Rightarrow> 'm) \<Rightarrow>
   string option \<Rightarrow> string option \<Rightarrow> nat \<Rightarrow> 'm scheduled_run \<Rightarrow> error + 'm scheduled_run" where
  "train_model_scheduled te model_sd checkpoint_loc checkpoint_name num_epochs r =
     (if num_epochs = 0 then Inl UnboundLocalError
      else train_loop_scheduled te model_sd checkpoint_loc checkpoint_name [0..<num_epochs] r)"

section \<open>The update rules of RMSProp and Adam\<close>

text \<open>
  Modelled from the spec: the notebook has no code for these two rules. Its code
  cells construct \<^verbatim>\<open>torch.optim.RMSprop\<close> and \<^verbatim>\<open>torch.optim.Adam\<close>, whose classes are
  not part of the notebook, and the formulas in the text cells before them are
  documentation. The definitions follow the contract of an update rule in the spec,
  \<^verbatim>\<open>apply(parameter, gradient, state_record, hyperparams)\<close> giving the new value of
  the parameter and the new state record, with all arithmetic element by element.
  The state record of a parameter that was never updated is absent (\<open>None\<close>) and is
  created with zeros of the parameter's shape.

  RMSProp: \<^verbatim>\<open>V <- alpha V_prev + (1 - alpha) grad^2\<close>,
  \<^verbatim>\<open>param <- param - lr grad / (sqrt(V) + eps)\<close>, state \<^verbatim>\<open>{square_avg: V}\<close>.
\<close>

record rmsprop_hyper =
  rms_lr :: real
  rms_alpha :: real
  rms_eps :: real

record rmsprop_state =
  square_avg :: tensor

definition rmsprop_init :: "tensor \<Rightarrow> rmsprop_state" where
  "rmsprop_init x = \<lparr>square_avg = replicate (length x) 0\<rparr>"

definition rmsprop_apply ::
  "tensor \<Rightarrow> tensor \<Rightarrow> rmsprop_state option \<Rightarrow> rmsprop_hyper \<Rightarrow> tensor \<times> rmsprop_state" where
  "rmsprop_apply x g st h =
     (let rec = (case st of None \<Rightarrow> rmsprop_init x | Some r \<Rightarrow> r);
          V = map2 (\<lambda>v gi. rms_alpha h * v + (1 - rms_alpha h) * gi\<^sup>2) (square_avg rec) g;
          x' = map2 (\<lambda>xi (gi, vi). xi - rms_lr h * gi / (sqrt vi + rms_eps h)) x (zip g V)
      in (x', \<lparr>square_avg = V\<rparr>))"

text \<open>
  Modelled from the spec: Adam. The step count \<open>t\<close> of the parameter is incremented,
  \<^verbatim>\<open>M <- beta1 M_prev + (1 - beta1) grad\<close>, \<^verbatim>\<open>V <- beta2 V_prev + (1 - beta2) grad^2\<close>,
  \<^verbatim>\<open>M_hat <- M / (1 - beta1^t)\<close>, \<^verbatim>\<open>V_hat <- V / (1 - beta2^t)\<close>,
  \<^verbatim>\<open>param <- param - lr M_hat / (sqrt(V_hat) + eps)\<close>, state
  \<^verbatim>\<open>{exp_avg: M, exp_avg_sq: V, step_count: t}\<close>.
\<close>

record adam_hyper =
  adam_lr :: real
  beta1 :: real
  beta2 :: real
  adam_eps :: real

record adam_state =
  exp_avg :: tensor
  exp_avg_sq :: tensor
  step_count :: nat

definition adam_init :: "tensor \<Rightarrow> adam_state" where
  "adam_init x =
     \<lparr>exp_avg = replicate (length x) 0, exp_avg_sq = replicate (length x) 0, step_count = 0\<rparr>"

definition adam_apply ::
  "tensor \<Rightarrow> tensor \<Rightarrow> adam_state option \<Rightarrow> adam_hyper \<Rightarrow> tensor \<times> adam_state" where
  "adam_apply x g st h =
     (let rec = (case st of None \<Rightarrow> adam_init x | Some r \<Rightarrow> r);
          t = Suc (step_count rec);
          M = map2 (\<lambda>m gi. beta1 h * m + (1 - beta1 h) * gi) (exp_avg rec) g;
          V = map2 (\<lambda>v gi. beta2 h * v + (1 - beta2 h) * gi\<^sup>2) (exp_avg_sq rec) g;
          M_hat = map (\<lambda>m. m / (1 - beta1 h ^ t)) M;
          V_hat = map (\<lambda>v. v / (1 - beta2 h ^ t)) V;
          x' = map2 (\<lambda>xi (mh, vh). xi - adam_lr h * mh / (sqrt vh + adam_eps h)) x
                 (zip M_hat V_hat)
      in (x', \<lparr>exp_avg = M, exp_avg_sq = V, step_count = t\<rparr>))"

text \<open>
  Modelled from the spec: the domain of the hyperparameters (\<open>lr > 0\<close>, the decay
  rates strictly between 0 and 1, \<open>eps > 0\<close>), and the invariants of a state record:
  its tensors have the shape of the parameter, and the accumulators of squared
  gradients are not negative.
\<close>

definition rmsprop_hyper_ok :: "rmsprop_hyper \<Rightarrow> bool" where
  "rmsprop_hyper_ok h \<longleftrightarrow> 0 < rms_lr h \<and> 0 < rms_alpha h \<and> rms_alpha h < 1 \<and> 0 < rms_eps h"

definition adam_hyper_ok :: "adam_hyper \<Rightarrow> bool" where
  "adam_hyper_ok h \<longleftrightarrow>
     0 < adam_lr h \<and> 0 < beta1 h \<and> beta1 h < 1 \<and> 0 < beta2 h \<and> beta2 h < 1 \<and> 0 < adam_eps h"

definition rmsprop_state_ok :: "tensor \<Rightarrow> rmsprop_state option \<Rightarrow> bool" where
  "rmsprop_state_ok x st =
     (case st of
        None \<Rightarrow> True
      | Some r \<Rightarrow> length (square_avg r) = length x \<and> list_all (\<lambda>v. 0 \<le> v) (square_avg r))"

definition adam_state_ok :: "tensor \<Rightarrow> adam_state option \<Rightarrow> bool" where
  "adam_state_ok x st =
     (case st of
        None \<Rightarrow> True
      | Some r \<Rightarrow> length (exp_avg r) = length x \<and> length (exp_avg_sq r) = length x \<and>
                  list_all (\<lambda>v. 0 \<le> v) (exp_avg_sq r))"

section \<open>A small optimizer\<close>

text \<open>
  Three parameters in two groups: parameter 0 has a gradient and a momentum buffer
  from an earlier step, parameter 1 has no gradient, parameter 2 has a gradient and
  no buffer yet, in a group without momentum.
\<close>

definition example_store :: store where
  "example_store =
     (\<lambda>_. \<lparr>data = [], grad = None\<rparr>)
       (0 := \<lparr>data = [1, 2], grad = Some [1 / 2, - 1]\<rparr>,
        1 := \<lparr>data = [3], grad = None\<rparr>,
        2 := \<lparr>data = [5], grad = Some [2]\<rparr>)"

definition example_group0 :: param_group where
  "example_group0 = \<lparr>params = [0, 1], lr = 1 / 10, momentum = 9 / 10\<rparr>"

definition example_group1 :: param_group where
  "example_group1 = \<lparr>params = [2], lr = 1 / 10, momentum = 0\<rparr>"

definition example_optimizer :: optimizer where
  "example_optimizer =
     \<lparr>param_groups = [example_group0, example_group1],
      state = [0 \<mapsto> \<lparr>momentum_buffer = Some [1, 1]\<rparr>]\<rparr>"

text \<open>
  Runs of the small optimizer in which an epoch is a single step, without and with
  the scheduler of the notebook.
\<close>

definition example_run :: "unit run" where
  "example_run = \<lparr>run_store = example_store, run_optimizer = example_optimizer, saved = None\<rparr>"

definition example_scheduled_run :: "unit scheduled_run" where
  "example_scheduled_run =
     \<lparr>run_store = example_store, run_optimizer = example_optimizer, saved = None,
      lr_scheduler = Some \<lparr>counter = 0, milestones = [6, 11], gamma = 1 / 10\<rparr>\<rparr>"

definition example_epoch :: "store \<times> optimizer \<Rightarrow> error + (store \<times> optimizer)" where
  "example_epoch s = step (fst s) (snd s)"

text \<open>Hyperparameters for the two rules of the spec.\<close>

definition example_rmsprop_hyper :: rmsprop_hyper where
  "example_rmsprop_hyper = \<lparr>rms_lr = 1 / 100, rms_alpha = 3 / 4, rms_eps = 1 / 100000000\<rparr>"

definition example_adam_hyper :: adam_hyper where
  "example_adam_hyper =
     \<lparr>adam_lr = 1 / 1000, beta1 = 1 / 2, beta2 = 3 / 4, adam_eps = 1 / 100000000\<rparr>"

section \<open>Properties of one parameter update\<close>

lemma length_new_buffer:
  "state_shape_ok st os p \<Longrightarrow> length g = length (data (st p)) \<Longrightarrow>
   length (new_buffer pg g (momentum_buffer (get_or_init os p))) = length g"
  by (simp add: new_buffer_def state_shape_ok_def scale_def mul_inplace_def split: option.splits)

lemma update_param_ok:
  assumes "grad_shape_ok st p" and "state_shape_ok st os p"
  shows "update_param pg p (st, os) = Inr (updated pg p (st, os))"
proof (cases "grad (st p)")
  case None
  then show ?thesis by (simp add: update_param_def updated_def)
next
  case (Some g)
  from assms Some have lg: "length g = length (data (st p))"
    by (simp add: grad_shape_ok_def)
  show ?thesis
  proof (cases "momentum_buffer (get_or_init os p)")
    case None
    with Some lg show ?thesis
      by (simp add: update_param_def updated_def new_buffer_def sub_inplace_def scale_def Let_def)
  next
    case (Some M)
    with assms(2) have "length M = length (data (st p))"
      by (simp add: state_shape_ok_def)
    with Some \<open>grad (st p) = Some g\<close> lg show ?thesis
      by (simp add: update_param_def updated_def new_buffer_def sub_inplace_def
          add_inplace_def scale_def mul_inplace_def Let_def)
  qed
qed

lemma update_param_other:
  assumes "update_param pg p (st, os) = Inr (st', os')" and "q \<noteq> p"
  shows "st' q = st q \<and> os' q = os q"
  using assms
  by (auto simp: update_param_def Let_def split: option.splits sum.splits)

lemma update_param_null:
  assumes "update_param pg p (st, os) = Inr (st', os')" and "grad (st q) = None"
  shows "st' q = st q \<and> os' q = os q"
  using assms
  by (auto simp: update_param_def Let_def split: option.splits sum.splits)

lemma updated_other:
  assumes "updated pg p (st, os) = (st', os')" and "q \<noteq> p"
  shows "st' q = st q \<and> os' q = os q"
  using assms by (auto simp: updated_def Let_def split: option.splits)

lemma updated_at:
  assumes "updated pg p (st, os) = (st', os')" and "grad (st p) = Some g"
  shows "st' p = (st p)\<lparr>data := map2 (\<lambda>a b. a - b) (data (st p))
                    (new_buffer pg g (momentum_buffer (get_or_init os p)))\<rparr>"
    and "os' p = Some ((get_or_init os p)\<lparr>momentum_buffer :=
                    Some (new_buffer pg g (momentum_buffer (get_or_init os p)))\<rparr>)"
  using assms by (auto simp: updated_def Let_def)

lemma updated_shapes:
  assumes "grad_shape_ok st p" and "state_shape_ok st os p"
    and "grad_shape_ok st q" and "state_shape_ok st os q"
    and "updated pg p (st, os) = (st', os')"
  shows "grad_shape_ok st' q \<and> state_shape_ok st' os' q"
proof (cases "q = p")
  case False
  from updated_other [OF assms(5) False] have eq: "st' q = st q" "os' q = os q"
    by simp_all
  from assms(3,4) show ?thesis
    by (simp add: grad_shape_ok_def state_shape_ok_def get_or_init_def eq
        cong: option.case_cong)
next
  case True
  show ?thesis
  proof (cases "grad (st p)")
    case None
    with assms True show ?thesis by (simp add: updated_def)
  next
    case (Some g)
    from assms(1) Some have lg: "length g = length (data (st p))"
      by (simp add: grad_shape_ok_def)
    have lb: "length (new_buffer pg g (momentum_buffer (get_or_init os p))) = length g"
      using assms(2) lg by (rule length_new_buffer)
    note at = updated_at [OF assms(5) Some]
    have g': "grad (st' p) = Some g" and d': "length (data (st' p)) = length (data (st p))"
      using Some lg lb by (simp_all add: at(1))
    have "grad_shape_ok st' p"
      using g' d' lg by (simp add: grad_shape_ok_def split: option.splits)
    moreover have "state_shape_ok st' os' p"
      using d' lg lb by (simp add: state_shape_ok_def get_or_init_def at(2) split: option.splits)
    ultimately show ?thesis using True by simp
  qed
qed

lemma shapes_ok_iff:
  "shapes_ok st os ps \<longleftrightarrow> (\<forall>p\<in>set ps. grad_shape_ok st p \<and> state_shape_ok st os p)"
  by (simp add: shapes_ok_def list_all_iff)

lemma update_param_shapes:
  assumes "grad_shape_ok st p" and "state_shape_ok st os p"
    and "shapes_ok st os qs" and "update_param pg p (st, os) = Inr (st', os')"
  shows "shapes_ok st' os' qs"
proof -
  from assms(4) update_param_ok [OF assms(1,2), of pg]
  have u: "updated pg p (st, os) = (st', os')" by simp
  show ?thesis
    unfolding shapes_ok_iff
  proof
    fix q assume "q \<in> set qs"
    with assms(3) have q: "grad_shape_ok st q" "state_shape_ok st os q"
      by (simp_all add: shapes_ok_iff)
    from updated_shapes [OF assms(1,2) q u]
    show "grad_shape_ok st' q \<and> state_shape_ok st' os' q" .
  qed
qed

lemma update_param_at:
  assumes "grad_shape_ok st p" and "state_shape_ok st os p"
    and "update_param pg p (st, os) = Inr (st', os')" and "grad (st p) = Some g"
  shows "st' p = (st p)\<lparr>data := map2 (\<lambda>a b. a - b) (data (st p))
                    (new_buffer pg g (momentum_buffer (get_or_init os p)))\<rparr>"
    and "os' p = Some ((get_or_init os p)\<lparr>momentum_buffer :=
                    Some (new_buffer pg g (momentum_buffer (get_or_init os p)))\<rparr>)"
proof -
  from assms(3) update_param_ok [OF assms(1,2), of pg]
  have u: "updated pg p (st, os) = (st', os')" by simp
  from updated_at [OF u assms(4)]
  show "st' p = (st p)\<lparr>data := map2 (\<lambda>a b. a - b) (data (st p))
                    (new_buffer pg g (momentum_buffer (get_or_init os p)))\<rparr>"
    and "os' p = Some ((get_or_init os p)\<lparr>momentum_buffer :=
                    Some (new_buffer pg g (momentum_buffer (get_or_init os p)))\<rparr>)"
    by simp_all
qed

text \<open>An update that succeeds on a parameter with a gradient has met matching shapes.\<close>

lemma update_param_success_shapes:
  assumes "update_param pg p (st, os) = Inr (st', os')" and "grad (st p) = Some g"
  shows "grad_shape_ok st p" and "state_shape_ok st os p"
  using assms
  by (auto simp: update_param_def Let_def grad_shape_ok_def state_shape_ok_def
      add_inplace_def sub_inplace_def scale_def mul_inplace_def
      split: option.splits sum.splits if_splits)

section \<open>The loop over one group\<close>

lemma step_params_null:
  "step_params pg ps (st, os) = Inr (st', os') \<Longrightarrow> grad (st q) = None \<Longrightarrow>
   st' q = st q \<and> os' q = os q"
proof (induction ps arbitrary: st os)
  case Nil
  then show ?case by simp
next
  case (Cons p ps)
  from Cons.prems(1) obtain st1 os1 where
    u: "update_param pg p (st, os) = Inr (st1, os1)"
    and r: "step_params pg ps (st1, os1) = Inr (st', os')"
    by (auto split: sum.splits)
  from update_param_null [OF u Cons.prems(2)] have e: "st1 q = st q" "os1 q = os q"
    by simp_all
  with Cons.prems(2) have "grad (st1 q) = None" by simp
  from Cons.IH [OF r this] e show ?case by simp
qed

lemma step_params_other:
  "step_params pg ps (st, os) = Inr (st', os') \<Longrightarrow> q \<notin> set ps \<Longrightarrow>
   st' q = st q \<and> os' q = os q"
proof (induction ps arbitrary: st os)
  case Nil
  then show ?case by simp
next
  case (Cons p ps)
  from Cons.prems(1) obtain st1 os1 where
    u: "update_param pg p (st, os) = Inr (st1, os1)"
    and r: "step_params pg ps (st1, os1) = Inr (st', os')"
    by (auto split: sum.splits)
  from Cons.prems(2) have "q \<noteq> p" "q \<notin> set ps" by simp_all
  from update_param_other [OF u \<open>q \<noteq> p\<close>] Cons.IH [OF r \<open>q \<notin> set ps\<close>]
  show ?case by simp
qed

lemma step_params_shapes:
  "shapes_ok st os ps \<Longrightarrow> shapes_ok st os qs \<Longrightarrow>
   step_params pg ps (st, os) = Inr (st', os') \<Longrightarrow> shapes_ok st' os' qs"
proof (induction ps arbitrary: st os)
  case Nil
  then show ?case by simp
next
  case (Cons p ps)
  from Cons.prems(3) obtain st1 os1 where
    u: "update_param pg p (st, os) = Inr (st1, os1)"
    and r: "step_params pg ps (st1, os1) = Inr (st', os')"
    by (auto split: sum.splits)
  from Cons.prems(1) have p: "grad_shape_ok st p" "state_shape_ok st os p"
    and ps: "shapes_ok st os ps"
    by (simp_all add: shapes_ok_iff)
  from update_param_shapes [OF p ps u] update_param_shapes [OF p Cons.prems(2) u]
  show ?case by (rule Cons.IH) (rule r)
qed

lemma step_params_total:
  "shapes_ok st os ps \<Longrightarrow> \<exists>s'. step_params pg ps (st, os) = Inr s'"
proof (induction ps arbitrary: st os)
  case Nil
  then show ?case by simp
next
  case (Cons p ps)
  from Cons.prems have p: "grad_shape_ok st p" "state_shape_ok st os p"
    and ps: "shapes_ok st os ps"
    by (simp_all add: shapes_ok_iff)
  obtain st1 os1 where u1: "updated pg p (st, os) = (st1, os1)"
    by (cases "updated pg p (st, os)")
  with update_param_ok [OF p, of pg]
  have u: "update_param pg p (st, os) = Inr (st1, os1)" by simp
  from update_param_shapes [OF p ps u] have "shapes_ok st1 os1 ps" .
  from Cons.IH [OF this] u show ?case by simp
qed

lemma step_params_at:
  assumes "step_params pg ps (st, os) = Inr (st', os')"
    and "distinct ps" and "p \<in> set ps" and "grad (st p) = Some g"
  shows "st' p = (st p)\<lparr>data := map2 (\<lambda>a b. a - b) (data (st p))
                    (new_buffer pg g (momentum_buffer (get_or_init os p)))\<rparr> \<and>
         os' p = Some ((get_or_init os p)\<lparr>momentum_buffer :=
                    Some (new_buffer pg g (momentum_buffer (get_or_init os p)))\<rparr>) \<and>
         grad_shape_ok st p \<and> state_shape_ok st os p"
  using assms
proof (induction ps arbitrary: st os)
  case Nil
  then show ?case by simp
next
  case (Cons q ps)
  from Cons.prems(1) obtain st1 os1 where
    u: "update_param pg q (st, os) = Inr (st1, os1)"
    and r: "step_params pg ps (st1, os1) = Inr (st', os')"
    by (auto split: sum.splits)
  from Cons.prems(2) have d: "distinct ps" and nq: "q \<notin> set ps" by simp_all
  show ?case
  proof (cases "p = q")
    case True
    with nq have "p \<notin> set ps" by simp
    from step_params_other [OF r this] have e: "st' p = st1 p" "os' p = os1 p" by simp_all
    note sh = update_param_success_shapes [OF u [folded True] Cons.prems(4)]
    from update_param_at [OF sh u [folded True] Cons.prems(4)] e sh
    show ?thesis by simp
  next
    case False
    with Cons.prems(3) have m: "p \<in> set ps" by simp
    from update_param_other [OF u False] have e: "st1 p = st p" "os1 p = os p" by simp_all
    with Cons.prems(4) have "grad (st1 p) = Some g" by simp
    from Cons.IH [OF r d m this] e show ?thesis
      by (simp add: get_or_init_def grad_shape_ok_def state_shape_ok_def
          cong: option.case_cong)
  qed
qed

section \<open>The loop over the groups\<close>

lemma step_groups_null:
  "step_groups pgs (st, os) = Inr (st', os') \<Longrightarrow> grad (st q) = None \<Longrightarrow>
   st' q = st q \<and> os' q = os q"
proof (induction pgs arbitrary: st os)
  case Nil
  then show ?case by simp
next
  case (Cons pg pgs)
  from Cons.prems(1) obtain st1 os1 where
    u: "step_params pg (params pg) (st, os) = Inr (st1, os1)"
    and r: "step_groups pgs (st1, os1) = Inr (st', os')"
    by (auto split: sum.splits)
  from step_params_null [OF u Cons.prems(2)] have e: "st1 q = st q" "os1 q = os q"
    by simp_all
  with Cons.prems(2) have "grad (st1 q) = None" by simp
  from Cons.IH [OF r this] e show ?case by simp
qed

lemma step_groups_other:
  "step_groups pgs (st, os) = Inr (st', os') \<Longrightarrow> q \<notin> set (concat (map params pgs)) \<Longrightarrow>
   st' q = st q \<and> os' q = os q"
proof (induction pgs arbitrary: st os)
  case Nil
  then show ?case by simp
next
  case (Cons pg pgs)
  from Cons.prems(1) obtain st1 os1 where
    u: "step_params pg (params pg) (st, os) = Inr (st1, os1)"
    and r: "step_groups pgs (st1, os1) = Inr (st', os')"
    by (auto split: sum.splits)
  from Cons.prems(2) have a: "q \<notin> set (params pg)" and b: "q \<notin> set (concat (map params pgs))"
    by simp_all
  from step_params_other [OF u a] Cons.IH [OF r b] show ?case by simp
qed

lemma shapes_ok_append:
  "shapes_ok st os (ps @ qs) \<longleftrightarrow> shapes_ok st os ps \<and> shapes_ok st os qs"
  by (simp add: shapes_ok_def)

lemma step_groups_shapes:
  "shapes_ok st os (concat (map params pgs)) \<Longrightarrow> shapes_ok st os qs \<Longrightarrow>
   step_groups pgs (st, os) = Inr (st', os') \<Longrightarrow> shapes_ok st' os' qs"
proof (induction pgs arbitrary: st os)
  case Nil
  then show ?case by simp
next
  case (Cons pg pgs)
  from Cons.prems(3) obtain st1 os1 where
    u: "step_params pg (params pg) (st, os) = Inr (st1, os1)"
    and r: "step_groups pgs (st1, os1) = Inr (st', os')"
    by (auto split: sum.splits)
  from Cons.prems(1) have a: "shapes_ok st os (params pg)"
    and b: "shapes_ok st os (concat (map params pgs))"
    by (simp_all add: shapes_ok_append)
  from step_params_shapes [OF a b u] step_params_shapes [OF a Cons.prems(2) u]
  show ?case by (rule Cons.IH) (rule r)
qed

lemma step_groups_total:
  "shapes_ok st os (concat (map params pgs)) \<Longrightarrow> \<exists>s'. step_groups pgs (st, os) = Inr s'"
proof (induction pgs arbitrary: st os)
  case Nil
  then show ?case by simp
next
  case (Cons pg pgs)
  from Cons.prems have a: "shapes_ok st os (params pg)"
    and b: "shapes_ok st os (concat (map params pgs))"
    by (simp_all add: shapes_ok_append)
  from step_params_total [OF a, of pg] obtain st1 os1 where
    u: "step_params pg (params pg) (st, os) = Inr (st1, os1)"
    by (cases) auto
  from step_params_shapes [OF a b u] have "shapes_ok st1 os1 (concat (map params pgs))" .
  from Cons.IH [OF this] u show ?case by simp
qed

lemma step_groups_at:
  assumes "step_groups pgs (st, os) = Inr (st', os')"
    and "distinct (concat (map params pgs))"
    and "pg \<in> set pgs" and "p \<in> set (params pg)" and "grad (st p) = Some g"
  shows "st' p = (st p)\<lparr>data := map2 (\<lambda>a b. a - b) (data (st p))
                    (new_buffer pg g (momentum_buffer (get_or_init os p)))\<rparr> \<and>
         os' p = Some ((get_or_init os p)\<lparr>momentum_buffer :=
                    Some (new_buffer pg g (momentum_buffer (get_or_init os p)))\<rparr>) \<and>
         grad_shape_ok st p \<and> state_shape_ok st os p"
  using assms
proof (induction pgs arbitrary: st os)
  case Nil
  then show ?case by simp
next
  case (Cons pg0 pgs)
  from Cons.prems(1) obtain st1 os1 where
    u: "step_params pg0 (params pg0) (st, os) = Inr (st1, os1)"
    and r: "step_groups pgs (st1, os1) = Inr (st', os')"
    by (auto split: sum.splits)
  from Cons.prems(2) have d0: "distinct (params pg0)"
    and d: "distinct (concat (map params pgs))"
    and dj: "set (params pg0) \<inter> set (concat (map params pgs)) = {}"
    by simp_all
  show ?case
  proof (cases "p \<in> set (params pg0)")
    case True
    with dj have np: "p \<notin> set (concat (map params pgs))" by auto
    with Cons.prems(3,4) have "pg = pg0" by auto
    from step_groups_other [OF r np] have "st' p = st1 p" "os' p = os1 p" by simp_all
    with step_params_at [OF u d0 True Cons.prems(5)] \<open>pg = pg0\<close>
    show ?thesis by simp
  next
    case False
    with Cons.prems(3,4) have m: "pg \<in> set pgs" by auto
    from step_params_other [OF u False] have e: "st1 p = st p" "os1 p = os p" by simp_all
    with Cons.prems(5) have "grad (st1 p) = Some g" by simp
    from Cons.IH [OF r d m Cons.prems(4) this] e show ?thesis
      by (simp add: get_or_init_def grad_shape_ok_def state_shape_ok_def
          cong: option.case_cong)
  qed
qed

section \<open>The whole step\<close>

lemma step_Inr:
  "step st opt = Inr (st', opt') \<longleftrightarrow>
   (\<exists>os'. step_groups (param_groups opt) (st, state opt) = Inr (st', os') \<and>
          opt' = opt\<lparr>state := os'\<rparr>)"
  by (auto simp: step_def split: sum.splits)

lemma step_total:
  assumes "shapes_ok st (state opt) (all_params opt)"
  shows "\<exists>st' opt'. step st opt = Inr (st', opt')"
proof -
  from assms step_groups_total [of st "state opt" "param_groups opt"]
  obtain st' os' where "step_groups (param_groups opt) (st, state opt) = Inr (st', os')"
    by (auto simp: all_params_def)
  then have "step st opt = Inr (st', opt\<lparr>state := os'\<rparr>)"
    by (simp add: step_def)
  then show ?thesis by blast
qed

lemma step_at:
  assumes "step st opt = Inr (st', opt')"
    and "distinct (all_params opt)"
    and "pg \<in> set (param_groups opt)" and "p \<in> set (params pg)"
    and "grad (st p) = Some g"
  shows "st' p = (st p)\<lparr>data := map2 (\<lambda>a b. a - b) (data (st p))
                    (new_buffer pg g (momentum_buffer (get_or_init (state opt) p)))\<rparr>"
    and "state opt' p = Some ((get_or_init (state opt) p)\<lparr>momentum_buffer :=
                    Some (new_buffer pg g (momentum_buffer (get_or_init (state opt) p)))\<rparr>)"
    and "length (new_buffer pg g (momentum_buffer (get_or_init (state opt) p))) = length g"
    and "length g = length (data (st p))"
    and "state_shape_ok st (state opt) p"
proof -
  from assms(1) obtain os' where
    r: "step_groups (param_groups opt) (st, state opt) = Inr (st', os')"
    and o: "opt' = opt\<lparr>state := os'\<rparr>"
    by (auto simp: step_Inr)
  from assms(2) have d: "distinct (concat (map params (param_groups opt)))"
    by (simp add: all_params_def)
  note at = step_groups_at [OF r d assms(3,4,5)]
  from at show sh: "state_shape_ok st (state opt) p" by simp
  from at assms(5) show lg: "length g = length (data (st p))"
    by (simp add: grad_shape_ok_def)
  from length_new_buffer [OF sh lg]
  show "length (new_buffer pg g (momentum_buffer (get_or_init (state opt) p))) = length g" .
  from at o
  show "st' p = (st p)\<lparr>data := map2 (\<lambda>a b. a - b) (data (st p))
                    (new_buffer pg g (momentum_buffer (get_or_init (state opt) p)))\<rparr>"
    and "state opt' p = Some ((get_or_init (state opt) p)\<lparr>momentum_buffer :=
                    Some (new_buffer pg g (momentum_buffer (get_or_init (state opt) p)))\<rparr>)"
    by simp_all
qed

lemma new_buffer_nth:
  assumes "i < length g" and "\<And>Mp. buf = Some Mp \<Longrightarrow> length Mp = length g"
  shows "new_buffer pg g buf ! i =
           (case buf of Some Mp \<Rightarrow> momentum pg * Mp ! i + lr pg * g ! i
            | None \<Rightarrow> lr pg * g ! i)"
  using assms
  by (cases buf) (simp_all add: new_buffer_def scale_def mul_inplace_def mult.commute)

lemma state_shape_buffer:
  "state_shape_ok st os p \<Longrightarrow> momentum_buffer (get_or_init os p) = Some Mp \<Longrightarrow>
   length Mp = length (data (st p))"
  by (simp add: state_shape_ok_def)

text \<open>A step keeps the groups, and it keeps the shapes in agreement.\<close>

lemma step_param_groups:
  "step st opt = Inr (st', opt') \<Longrightarrow> param_groups opt' = param_groups opt"
  by (auto simp: step_Inr)

lemma step_shapes:
  assumes "shapes_ok st (state opt) (all_params opt)" and "step st opt = Inr (st', opt')"
  shows "shapes_ok st' (state opt') (all_params opt')"
proof -
  from assms(2) obtain os' where
    r: "step_groups (param_groups opt) (st, state opt) = Inr (st', os')"
    and o: "opt' = opt\<lparr>state := os'\<rparr>"
    by (auto simp: step_Inr)
  from assms(1) have "shapes_ok st (state opt) (concat (map params (param_groups opt)))"
    by (simp add: all_params_def)
  from step_groups_shapes [OF this this r] o show ?thesis
    by (simp add: all_params_def)
qed

section \<open>Claims about \<^verbatim>\<open>SGD_Alternate.step\<close>\<close>

text \<open>
  C1. For every parameter \<open>p\<close> of a group \<open>pg\<close> with a gradient \<open>g\<close>, the step
  returns, stores a buffer \<open>M\<close> as the \<open>momentum_buffer\<close> of \<open>p\<close> and subtracts it
  from the parameter: element by element, \<open>M = momentum \<cdot> M_prev + lr \<cdot> g\<close> when a
  buffer \<open>M_prev\<close> existed before the step, \<open>M = lr \<cdot> g\<close> on first use, and the new
  value is the old value minus \<open>M\<close>. The optimizer has no weight decay. The
  hypotheses are the invariants of the data model: no parameter occurs twice, shapes
  agree.
\<close>

theorem sgd_step_update_rule:
  assumes "distinct (all_params opt)" and "shapes_ok st (state opt) (all_params opt)"
    and "pg \<in> set (param_groups opt)" and "p \<in> set (params pg)"
    and "grad (st p) = Some g"
  shows "\<exists>st' opt' r M.
           step st opt = Inr (st', opt') \<and>
           state opt' p = Some r \<and> momentum_buffer r = Some M \<and>
           length M = length g \<and> length (data (st' p)) = length g \<and>
           (\<forall>i<length g.
              M ! i = (case momentum_buffer (get_or_init (state opt) p) of
                         Some M_prev \<Rightarrow> momentum pg * M_prev ! i + lr pg * g ! i
                       | None \<Rightarrow> lr pg * g ! i) \<and>
              data (st' p) ! i = data (st p) ! i - M ! i)"
proof -
  let ?buf = "momentum_buffer (get_or_init (state opt) p)"
  let ?M = "new_buffer pg g ?buf"
  from step_total [OF assms(2)] obtain st' opt' where s: "step st opt = Inr (st', opt')"
    by blast
  note at = step_at [OF s assms(1,3,4,5)]
  note sh = at(5)
  have nth: "?M ! i = (case ?buf of Some M_prev \<Rightarrow> momentum pg * M_prev ! i + lr pg * g ! i
                       | None \<Rightarrow> lr pg * g ! i)" if "i < length g" for i
    using that state_shape_buffer [OF sh] at(4) by (intro new_buffer_nth) simp_all
  have "state opt' p = Some ((get_or_init (state opt) p)\<lparr>momentum_buffer := Some ?M\<rparr>)"
    by (rule at(2))
  moreover have "momentum_buffer ((get_or_init (state opt) p)\<lparr>momentum_buffer := Some ?M\<rparr>) = Some ?M"
    by simp
  moreover have "length ?M = length g" by (rule at(3))
  moreover have "length (data (st' p)) = length g"
    by (simp add: at(1) at(3) at(4))
  moreover have "\<forall>i<length g. ?M ! i = (case ?buf of
                         Some M_prev \<Rightarrow> momentum pg * M_prev ! i + lr pg * g ! i
                       | None \<Rightarrow> lr pg * g ! i) \<and>
              data (st' p) ! i = data (st p) ! i - ?M ! i"
    using nth by (simp add: at(1) at(3) at(4))
  ultimately show ?thesis using s by blast
qed

theorem sgd_step_update_rule_witness:
  "distinct (all_params example_optimizer) \<and>
   shapes_ok example_store (state example_optimizer) (all_params example_optimizer) \<and>
   example_group0 \<in> set (param_groups example_optimizer) \<and>
   0 \<in> set (params example_group0) \<and>
   grad (example_store 0) = Some [1 / 2, - 1] \<and>
   (\<exists>st' opt' r M.
      step example_store example_optimizer = Inr (st', opt') \<and>
      state opt' 0 = Some r \<and> momentum_buffer r = Some M \<and>
      length M = 2 \<and> length (data (st' 0)) = 2 \<and>
      M ! 0 = 9 / 10 * 1 + 1 / 10 * (1 / 2) \<and> data (st' 0) ! 0 = 1 - M ! 0 \<and>
      M ! 1 = 9 / 10 * 1 + 1 / 10 * (- 1) \<and> data (st' 0) ! 1 = 2 - M ! 1)"
proof -
  have h: "distinct (all_params example_optimizer)"
    "shapes_ok example_store (state example_optimizer) (all_params example_optimizer)"
    "example_group0 \<in> set (param_groups example_optimizer)"
    "0 \<in> set (params example_group0)"
    "grad (example_store 0) = Some [1 / 2, - 1]"
    by (simp_all add: all_params_def shapes_ok_def grad_shape_ok_def state_shape_ok_def
        get_or_init_def example_optimizer_def example_store_def example_group0_def
        example_group1_def)
  from sgd_step_update_rule [OF h] obtain st' opt' r M where
    "step example_store example_optimizer = Inr (st', opt')"
    "state opt' 0 = Some r" "momentum_buffer r = Some M"
    "length M = 2" "length (data (st' 0)) = 2"
    "\<forall>i<2. M ! i = (case momentum_buffer (get_or_init (state example_optimizer) 0) of
                         Some M_prev \<Rightarrow> momentum example_group0 * M_prev ! i
                             + lr example_group0 * [1 / 2, - 1] ! i
                       | None \<Rightarrow> lr example_group0 * [1 / 2, - 1] ! i) \<and>
              data (st' 0) ! i = data (example_store 0) ! i - M ! i"
    by auto
  moreover from this(6) have "M ! 0 = 9 / 10 * 1 + 1 / 10 * (1 / 2) \<and> data (st' 0) ! 0 = 1 - M ! 0"
    and "M ! 1 = 9 / 10 * 1 + 1 / 10 * (- 1) \<and> data (st' 0) ! 1 = 2 - M ! 1"
    by (simp_all add: get_or_init_def example_optimizer_def example_store_def example_group0_def)
  ultimately show ?thesis using h by blast
qed

text \<open>
  C2. A parameter whose gradient is \<open>None\<close> when \<^verbatim>\<open>step\<close> is called keeps its
  value, and its entry in the optimizer state is the one it had before the call
  (none, if it had none).
\<close>

theorem step_null_grad_untouched:
  assumes "grad (st p) = None" and "step st opt = Inr (st', opt')"
  shows "st' p = st p \<and> state opt' p = state opt p"
proof -
  from assms(2) obtain os' where
    r: "step_groups (param_groups opt) (st, state opt) = Inr (st', os')"
    and o: "opt' = opt\<lparr>state := os'\<rparr>"
    by (auto simp: step_Inr)
  from step_groups_null [OF r assms(1)] o show ?thesis by simp
qed

theorem step_null_grad_untouched_witness:
  "grad (example_store 1) = None \<and>
   (\<exists>st' opt'. step example_store example_optimizer = Inr (st', opt') \<and>
      st' 1 = example_store 1 \<and> state opt' 1 = state example_optimizer 1 \<and>
      data (st' 1) = [3] \<and> state opt' 1 = None)"
proof -
  have g: "grad (example_store 1) = None"
    by (simp add: example_store_def)
  have "shapes_ok example_store (state example_optimizer) (all_params example_optimizer)"
    by (simp add: all_params_def shapes_ok_def grad_shape_ok_def state_shape_ok_def
        get_or_init_def example_optimizer_def example_store_def example_group0_def
        example_group1_def)
  from step_total [OF this] obtain st' opt' where
    s: "step example_store example_optimizer = Inr (st', opt')"
    by blast
  from step_null_grad_untouched [OF g s]
  have "st' 1 = example_store 1 \<and> state opt' 1 = state example_optimizer 1" .
  moreover from this have "data (st' 1) = [3] \<and> state opt' 1 = None"
    by (simp add: example_store_def example_optimizer_def)
  ultimately show ?thesis using g s by blast
qed

text \<open>
  C3. In a group whose \<open>momentum\<close> is 0, the step changes a parameter with gradient
  \<open>g\<close> to \<open>param - lr \<cdot> g\<close>, element by element, whether or not the parameter already
  has a momentum buffer.
\<close>

theorem step_zero_momentum_plain_sgd:
  assumes "distinct (all_params opt)" and "shapes_ok st (state opt) (all_params opt)"
    and "pg \<in> set (param_groups opt)" and "p \<in> set (params pg)"
    and "grad (st p) = Some g" and "momentum pg = 0"
  shows "\<exists>st' opt'.
           step st opt = Inr (st', opt') \<and>
           length (data (st' p)) = length (data (st p)) \<and>
           (\<forall>i<length (data (st p)). data (st' p) ! i = data (st p) ! i - lr pg * g ! i)"
proof -
  let ?buf = "momentum_buffer (get_or_init (state opt) p)"
  let ?M = "new_buffer pg g ?buf"
  from step_total [OF assms(2)] obtain st' opt' where s: "step st opt = Inr (st', opt')"
    by blast
  note at = step_at [OF s assms(1,3,4,5)]
  note sh = at(5)
  have nth: "?M ! i = lr pg * g ! i" if "i < length g" for i
  proof -
    have "?M ! i = (case ?buf of Some M_prev \<Rightarrow> momentum pg * M_prev ! i + lr pg * g ! i
                       | None \<Rightarrow> lr pg * g ! i)"
      using that state_shape_buffer [OF sh] at(4) by (intro new_buffer_nth) simp_all
    with assms(6) show ?thesis by (simp split: option.splits)
  qed
  have "length (data (st' p)) = length (data (st p))"
    by (simp add: at(1) at(3) at(4))
  moreover have "\<forall>i<length (data (st p)). data (st' p) ! i = data (st p) ! i - lr pg * g ! i"
    using nth by (simp add: at(1) at(3) at(4))
  ultimately show ?thesis using s by blast
qed

theorem step_zero_momentum_plain_sgd_witness:
  "distinct (all_params example_optimizer) \<and>
   shapes_ok example_store (state example_optimizer) (all_params example_optimizer) \<and>
   example_group1 \<in> set (param_groups example_optimizer) \<and>
   2 \<in> set (params example_group1) \<and>
   grad (example_store 2) = Some [2] \<and> momentum example_group1 = 0 \<and>
   (\<exists>st' opt'. step example_store example_optimizer = Inr (st', opt') \<and>
      length (data (st' 2)) = 1 \<and> data (st' 2) ! 0 = 5 - 1 / 10 * 2)"
proof -
  have h: "distinct (all_params example_optimizer)"
    "shapes_ok example_store (state example_optimizer) (all_params example_optimizer)"
    "example_group1 \<in> set (param_groups example_optimizer)"
    "2 \<in> set (params example_group1)"
    "grad (example_store 2) = Some [2]" "momentum example_group1 = 0"
    by (simp_all add: all_params_def shapes_ok_def grad_shape_ok_def state_shape_ok_def
        get_or_init_def example_optimizer_def example_store_def example_group0_def
        example_group1_def)
  from step_zero_momentum_plain_sgd [OF h] obtain st' opt' where
    "step example_store example_optimizer = Inr (st', opt')"
    "length (data (st' 2)) = length (data (example_store 2))"
    "\<forall>i<length (data (example_store 2)).
        data (st' 2) ! i = data (example_store 2) ! i - lr example_group1 * [2] ! i"
    by auto
  moreover from this(2,3) have "length (data (st' 2)) = 1 \<and> data (st' 2) ! 0 = 5 - 1 / 10 * 2"
    by (simp add: example_store_def example_group1_def)
  ultimately show ?thesis using h by blast
qed

text \<open>
  C10. After a step that has returned, every parameter of the optimizer that had a
  gradient during the step has a \<open>momentum_buffer\<close> \<open>M\<close> in its state record, of the
  parameter's shape, and the new value of the parameter is the old value minus \<open>M\<close>:
  the stored buffer is the quantity that was subtracted, on the first update and on
  later ones. No parameter occurs twice in the groups (one that did would be updated
  twice, and only the second buffer would be stored).
\<close>

theorem step_buffer_is_subtracted:
  assumes "distinct (all_params opt)" and "step st opt = Inr (st', opt')"
    and "p \<in> set (all_params opt)" and "grad (st p) = Some g"
  shows "\<exists>r M. state opt' p = Some r \<and> momentum_buffer r = Some M \<and>
           length M = length (data (st p)) \<and>
           data (st' p) = map2 (\<lambda>a b. a - b) (data (st p)) M"
proof -
  from assms(3) obtain pg where pg: "pg \<in> set (param_groups opt)" "p \<in> set (params pg)"
    by (auto simp: all_params_def)
  let ?M = "new_buffer pg g (momentum_buffer (get_or_init (state opt) p))"
  note at = step_at [OF assms(2) assms(1) pg assms(4)]
  have "state opt' p = Some ((get_or_init (state opt) p)\<lparr>momentum_buffer := Some ?M\<rparr>)"
    by (rule at(2))
  moreover have "momentum_buffer ((get_or_init (state opt) p)\<lparr>momentum_buffer := Some ?M\<rparr>) = Some ?M"
    by simp
  moreover have "length ?M = length (data (st p))"
    by (simp add: at(3) at(4))
  moreover have "data (st' p) = map2 (\<lambda>a b. a - b) (data (st p)) ?M"
    by (simp add: at(1))
  ultimately show ?thesis by blast
qed

theorem step_buffer_is_subtracted_witness:
  "distinct (all_params example_optimizer) \<and>
   0 \<in> set (all_params example_optimizer) \<and>
   grad (example_store 0) = Some [1 / 2, - 1] \<and>
   (\<exists>st' opt' r M. step example_store example_optimizer = Inr (st', opt') \<and>
      state opt' 0 = Some r \<and> momentum_buffer r = Some M \<and> length M = 2 \<and>
      data (st' 0) = map2 (\<lambda>a b. a - b) [1, 2] M)"
proof -
  have h: "distinct (all_params example_optimizer)"
    "shapes_ok example_store (state example_optimizer) (all_params example_optimizer)"
    by (simp_all add: all_params_def shapes_ok_def grad_shape_ok_def state_shape_ok_def
        get_or_init_def example_optimizer_def example_store_def example_group0_def
        example_group1_def)
  have k: "0 \<in> set (all_params example_optimizer)"
    "grad (example_store 0) = Some [1 / 2, - 1]"
    by (simp_all add: all_params_def example_optimizer_def example_store_def
        example_group0_def example_group1_def)
  from step_total [OF h(2)] obtain st' opt' where
    s: "step example_store example_optimizer = Inr (st', opt')"
    by blast
  from step_buffer_is_subtracted [OF h(1) s k] obtain r M where
    "state opt' 0 = Some r" "momentum_buffer r = Some M"
    "length M = length (data (example_store 0))"
    "data (st' 0) = map2 (\<lambda>a b. a - b) (data (example_store 0)) M"
    by blast
  moreover from this(3,4) have "length M = 2 \<and> data (st' 0) = map2 (\<lambda>a b. a - b) [1, 2] M"
    by (simp add: example_store_def)
  ultimately show ?thesis using h(1) k s by blast
qed

section \<open>Hyperparameter writes\<close>

lemma params_set_hyper: "params (set_hyper key v pg) = params pg"
  by (cases key) simp_all

lemma get_set_hyper: "get_hyper k (set_hyper key v pg) = (if k = key then v else get_hyper k pg)"
  by (cases key; cases k) simp_all

lemma map_params_update:
  "map params (gs[j := set_hyper key v (gs ! j)]) = map params gs"
proof (cases "j < length gs")
  case True
  then have "(map params gs)[j := map params gs ! j] = map params gs"
    by (simp only: list_update_id)
  with True show ?thesis
    by (simp add: map_update params_set_hyper)
next
  case False
  then have "length gs \<le> j" by simp
  then have "gs[j := set_hyper key v (gs ! j)] = gs"
    by (rule list_update_beyond)
  then show ?thesis by simp
qed

lemma write_hyper_in_range:
  assumes "0 \<le> i" and "i < int (length (param_groups opt))"
  shows "write_hyper i key v opt =
           Inr (opt\<lparr>param_groups :=
                  (param_groups opt)[nat i := set_hyper key v (param_groups opt ! nat i)]\<rparr>)"
  using assms by (simp add: write_hyper_def put_hyper_def)

text \<open>
  C8. A write of the value \<open>v\<close> under the key \<open>key\<close> of group \<open>i\<close> succeeds for an
  index in range and changes that one entry: the optimizer state and the membership
  of the groups are as before (parameter values are not operands of the write), so
  nothing an earlier step has computed is altered. The step after the write computes
  the update of every parameter of the group with the hyperparameters \<open>pg1\<close> that the
  group holds then, the written value among them.
\<close>

theorem hyper_write_seen_by_next_step:
  assumes "distinct (all_params opt)" and "shapes_ok st (state opt) (all_params opt)"
    and "0 \<le> i" and "i < int (length (param_groups opt))"
    and "p \<in> set (params (param_groups opt ! nat i))" and "grad (st p) = Some g"
  shows "\<exists>opt1 pg1 st' opt' r M.
           write_hyper i key v opt = Inr opt1 \<and>
           state opt1 = state opt \<and>
           map params (param_groups opt1) = map params (param_groups opt) \<and>
           pg1 = param_groups opt1 ! nat i \<and>
           get_hyper key pg1 = v \<and>
           (\<forall>k. k \<noteq> key \<longrightarrow> get_hyper k pg1 = get_hyper k (param_groups opt ! nat i)) \<and>
           step st opt1 = Inr (st', opt') \<and>
           state opt' p = Some r \<and> momentum_buffer r = Some M \<and> length M = length g \<and>
           (\<forall>j<length g.
              M ! j = (case momentum_buffer (get_or_init (state opt) p) of
                         Some M_prev \<Rightarrow> momentum pg1 * M_prev ! j + lr pg1 * g ! j
                       | None \<Rightarrow> lr pg1 * g ! j) \<and>
              data (st' p) ! j = data (st p) ! j - M ! j)"
proof -
  let ?gs = "param_groups opt"
  let ?pg1 = "set_hyper key v (?gs ! nat i)"
  let ?opt1 = "opt\<lparr>param_groups := ?gs[nat i := ?pg1]\<rparr>"
  let ?buf = "momentum_buffer (get_or_init (state opt) p)"
  let ?M = "new_buffer ?pg1 g ?buf"
  from assms(3,4) have n: "nat i < length ?gs" by simp
  have w: "write_hyper i key v opt = Inr ?opt1"
    using assms(3,4) by (rule write_hyper_in_range)
  have mp: "map params (param_groups ?opt1) = map params ?gs"
    by (simp add: map_params_update)
  then have ap: "all_params ?opt1 = all_params opt"
    by (simp add: all_params_def)
  have nth1: "param_groups ?opt1 ! nat i = ?pg1"
    using n by simp
  have d1: "distinct (all_params ?opt1)"
    using assms(1) ap by simp
  have s1: "shapes_ok st (state ?opt1) (all_params ?opt1)"
    using assms(2) ap by simp
  have m1: "?pg1 \<in> set (param_groups ?opt1)"
    using n by (simp add: set_update_memI)
  have p1: "p \<in> set (params ?pg1)"
    using assms(5) by (simp add: params_set_hyper)
  from step_total [OF s1] obtain st' opt' where s: "step st ?opt1 = Inr (st', opt')"
    by blast
  note at = step_at [OF s d1 m1 p1 assms(6)]
  from at(5) have sh: "state_shape_ok st (state opt) p"
    by (simp add: state_shape_ok_def)
  have nth: "?M ! j = (case ?buf of Some M_prev \<Rightarrow> momentum ?pg1 * M_prev ! j + lr ?pg1 * g ! j
                       | None \<Rightarrow> lr ?pg1 * g ! j)" if "j < length g" for j
    using that state_shape_buffer [OF sh] at(4) by (intro new_buffer_nth) simp_all
  have a: "state opt' p = Some ((get_or_init (state opt) p)\<lparr>momentum_buffer := Some ?M\<rparr>)"
    using at(2) by simp
  have b: "momentum_buffer ((get_or_init (state opt) p)\<lparr>momentum_buffer := Some ?M\<rparr>) = Some ?M"
    by simp
  have c: "length ?M = length g"
    using at(3) by simp
  have e: "\<forall>j<length g. ?M ! j = (case ?buf of
                         Some M_prev \<Rightarrow> momentum ?pg1 * M_prev ! j + lr ?pg1 * g ! j
                       | None \<Rightarrow> lr ?pg1 * g ! j) \<and>
              data (st' p) ! j = data (st p) ! j - ?M ! j"
    using nth at(3) at(4) by (simp add: at(1))
  have f: "get_hyper key ?pg1 = v"
    and h: "\<forall>k. k \<noteq> key \<longrightarrow> get_hyper k ?pg1 = get_hyper k (?gs ! nat i)"
    by (simp_all add: get_set_hyper)
  have st1: "state ?opt1 = state opt" by simp
  from w st1 mp nth1 [symmetric] f h s a b c e show ?thesis
    by blast
qed

theorem hyper_write_seen_by_next_step_witness:
  "distinct (all_params example_optimizer) \<and>
   shapes_ok example_store (state example_optimizer) (all_params example_optimizer) \<and>
   (0::int) \<le> 0 \<and> 0 < int (length (param_groups example_optimizer)) \<and>
   0 \<in> set (params (param_groups example_optimizer ! nat 0)) \<and>
   grad (example_store 0) = Some [1 / 2, - 1] \<and>
   (\<exists>opt1 st' opt' r M.
      write_hyper 0 Momentum (8 / 10) example_optimizer = Inr opt1 \<and>
      state opt1 = state example_optimizer \<and>
      momentum (param_groups opt1 ! 0) = 8 / 10 \<and> lr (param_groups opt1 ! 0) = 1 / 10 \<and>
      step example_store opt1 = Inr (st', opt') \<and>
      state opt' 0 = Some r \<and> momentum_buffer r = Some M \<and> length M = 2 \<and>
      M ! 0 = 8 / 10 * 1 + 1 / 10 * (1 / 2) \<and> data (st' 0) ! 0 = 1 - M ! 0 \<and>
      M ! 1 = 8 / 10 * 1 + 1 / 10 * (- 1) \<and> data (st' 0) ! 1 = 2 - M ! 1)"
proof -
  have h: "distinct (all_params example_optimizer)"
    "shapes_ok example_store (state example_optimizer) (all_params example_optimizer)"
    "(0::int) \<le> 0" "0 < int (length (param_groups example_optimizer))"
    "0 \<in> set (params (param_groups example_optimizer ! nat 0))"
    "grad (example_store 0) = Some [1 / 2, - 1]"
    by (simp_all add: all_params_def shapes_ok_def grad_shape_ok_def state_shape_ok_def
        get_or_init_def example_optimizer_def example_store_def example_group0_def
        example_group1_def)
  from hyper_write_seen_by_next_step [OF h, of Momentum "8 / 10"]
  obtain opt1 pg1 st' opt' r M where
    a: "write_hyper 0 Momentum (8 / 10) example_optimizer = Inr opt1"
      "state opt1 = state example_optimizer"
      "pg1 = param_groups opt1 ! nat 0"
      "get_hyper Momentum pg1 = 8 / 10"
      "\<forall>k. k \<noteq> Momentum \<longrightarrow> get_hyper k pg1 = get_hyper k (param_groups example_optimizer ! nat 0)"
      "step example_store opt1 = Inr (st', opt')"
      "state opt' 0 = Some r" "momentum_buffer r = Some M"
      "length M = length [1 / 2, - 1 :: real]"
    and b: "\<forall>j<length [1 / 2, - 1 :: real].
        M ! j = (case momentum_buffer (get_or_init (state example_optimizer) 0) of
                   Some M_prev \<Rightarrow> momentum pg1 * M_prev ! j + lr pg1 * [1 / 2, - 1] ! j
                 | None \<Rightarrow> lr pg1 * [1 / 2, - 1] ! j) \<and>
        data (st' 0) ! j = data (example_store 0) ! j - M ! j"
    by blast
  from a(4) have m: "momentum pg1 = 8 / 10" by simp
  from a(5) [rule_format, of Lr]
  have "get_hyper Lr pg1 = get_hyper Lr (param_groups example_optimizer ! nat 0)"
    by simp
  then have l: "lr pg1 = 1 / 10"
    by (simp add: example_optimizer_def example_group0_def)
  from b m l have "M ! 0 = 8 / 10 * 1 + 1 / 10 * (1 / 2) \<and> data (st' 0) ! 0 = 1 - M ! 0"
    and "M ! 1 = 8 / 10 * 1 + 1 / 10 * (- 1) \<and> data (st' 0) ! 1 = 2 - M ! 1"
    by (simp_all add: get_or_init_def example_optimizer_def example_store_def)
  moreover from a(3) m l have "momentum (param_groups opt1 ! 0) = 8 / 10"
    "lr (param_groups opt1 ! 0) = 1 / 10"
    by simp_all
  moreover from a(9) have "length M = 2" by simp
  ultimately show ?thesis using h a(1,2,6,7,8) by blast
qed

section \<open>Export and import of the optimizer state\<close>

lemma import_export:
  assumes "shapes_ok st (state opt) (all_params opt)"
  shows "import_state st (export_state opt) opt = Inr opt"
proof -
  from assms have "list_all (state_shape_ok st (state opt)) (all_params opt)"
    by (simp add: shapes_ok_def list_all_iff)
  then show ?thesis
    by (simp add: import_state_def export_state_def)
qed

text \<open>
  C9. When the tensors of the state have the shapes of their parameters, importing
  the exported state succeeds, and a step on the same parameters and gradients after
  the round trip returns the same parameter values and the same optimizer state as
  the step without the round trip. Export and import follow the spec; the step is
  the one of \<^verbatim>\<open>SGD_Alternate\<close>.
\<close>

theorem export_import_then_step:
  assumes "shapes_ok st (state opt) (all_params opt)"
  shows "\<exists>opt1 st' opt'.
           import_state st (export_state opt) opt = Inr opt1 \<and>
           step st opt1 = Inr (st', opt') \<and> step st opt = Inr (st', opt')"
proof -
  from step_total [OF assms] obtain st' opt' where "step st opt = Inr (st', opt')"
    by blast
  with import_export [OF assms] show ?thesis by blast
qed

theorem export_import_then_step_witness:
  "shapes_ok example_store (state example_optimizer) (all_params example_optimizer) \<and>
   state example_optimizer 0 = Some \<lparr>momentum_buffer = Some [1, 1]\<rparr> \<and>
   (\<exists>opt1 st' opt'.
      import_state example_store (export_state example_optimizer) example_optimizer = Inr opt1 \<and>
      step example_store opt1 = Inr (st', opt') \<and>
      step example_store example_optimizer = Inr (st', opt'))"
proof -
  have h: "shapes_ok example_store (state example_optimizer) (all_params example_optimizer)"
    by (simp add: all_params_def shapes_ok_def grad_shape_ok_def state_shape_ok_def
        get_or_init_def example_optimizer_def example_store_def example_group0_def
        example_group1_def)
  have "state example_optimizer 0 = Some \<lparr>momentum_buffer = Some [1, 1]\<rparr>"
    by (simp add: example_optimizer_def)
  with h export_import_then_step [OF h] show ?thesis by blast
qed


section \<open>The epoch loops\<close>

lemma call_train_epoch_seven: "call_train_epoch 7 te s = Inl TypeError"
  by (simp add: call_train_epoch_def)


lemma epoch_body_decay_fails:
  "epoch_body_decay te model_sd loc name epoch r = Inl TypeError"
  by (simp add: epoch_body_decay_def call_train_epoch_seven)

lemma epoch_body_scheduled_fails:
  "epoch_body_scheduled te model_sd loc name epoch r = Inl TypeError"
  by (simp add: epoch_body_scheduled_def call_train_epoch_seven)

text \<open>
  Neither of the two later versions of \<^verbatim>\<open>train_model\<close> gets past its first call of
  \<^verbatim>\<open>train_epoch\<close>.
\<close>

lemma train_model_decay_fails:
  "train_model_decay te model_sd loc name (Suc n) r = Inl TypeError"
  by (simp add: train_model_decay_def upt_conv_Cons epoch_body_decay_fails del: upt_Suc)

lemma train_model_scheduled_fails:
  "train_model_scheduled te model_sd loc name (Suc n) r = Inl TypeError"
  by (simp add: train_model_scheduled_def upt_conv_Cons epoch_body_scheduled_fails del: upt_Suc)

lemma train_model_loop:
  "0 < num_epochs \<Longrightarrow>
   train_model te model_sd loc name num_epochs r =
     train_loop te model_sd loc name [0..<num_epochs] r"
  by (simp add: train_model_def)

section \<open>The schedule of the learning rate\<close>

lemma lr_decay_lr:
  "map lr (param_groups (decay_lr epoch opt)) =
     map (\<lambda>x. if epoch = 6 \<or> epoch = 11 then x * (1 / 10) else x) (map lr (param_groups opt))"
  by (simp add: decay_lr_def)

text \<open>
  The loop heads of the epochs 0 to \<open>k\<close>, taken by themselves, leave the learning
  rates that the schedule with milestones 6 and 11 and factor 0.1 asks for: the
  initial one for \<open>k < 6\<close>, a tenth of it for \<open>6 \<le> k < 11\<close>, a tenth of that from
  \<open>k = 11\<close> on.
\<close>

lemma decay_lr_sequence:
  "map lr (param_groups (fold decay_lr [0..<Suc k] opt)) =
     map (\<lambda>x. if k < 6 then x else if k < 11 then x * (1 / 10) else x * (1 / 10) * (1 / 10))
       (map lr (param_groups opt))"
proof (induction k)
  case 0
  then show ?case by (simp add: decay_lr_def)
next
  case (Suc k)
  have "map lr (param_groups (fold decay_lr [0..<Suc (Suc k)] opt)) =
          map lr (param_groups (decay_lr (Suc k) (fold decay_lr [0..<Suc k] opt)))"
    by simp
  also have "\<dots> = map (\<lambda>x. if Suc k = 6 \<or> Suc k = 11 then x * (1 / 10) else x)
                     (map lr (param_groups (fold decay_lr [0..<Suc k] opt)))"
    by (rule lr_decay_lr)
  also have "\<dots> = map (\<lambda>x. if Suc k < 6 then x else if Suc k < 11 then x * (1 / 10)
                            else x * (1 / 10) * (1 / 10))
                     (map lr (param_groups opt))"
    unfolding Suc.IH by auto
  finally show ?case .
qed

text \<open>The scheduler of the spec gives the same learning rates after \<open>k\<close> ticks.\<close>

lemma tick_multistep:
  assumes "milestones sch = [6, 11]" and "gamma sch = 1 / 10"
  shows "fst (tick sch opt) = sch\<lparr>counter := Suc (counter sch)\<rparr>"
    and "map lr (param_groups (snd (tick sch opt))) =
           map (\<lambda>x. if Suc (counter sch) = 6 \<or> Suc (counter sch) = 11 then x * (1 / 10) else x)
             (map lr (param_groups opt))"
    and "state (snd (tick sch opt)) = state opt"
  using assms by (simp_all add: tick_def Let_def)

lemma ticks_sequence:
  assumes "counter sch = 0" and "milestones sch = [6, 11]" and "gamma sch = 1 / 10"
  shows "fst (((\<lambda>s. tick (fst s) (snd s)) ^^ k) (sch, opt)) = sch\<lparr>counter := k\<rparr> \<and>
         map lr (param_groups (snd (((\<lambda>s. tick (fst s) (snd s)) ^^ k) (sch, opt)))) =
           map (\<lambda>x. if k < 6 then x else if k < 11 then x * (1 / 10) else x * (1 / 10) * (1 / 10))
             (map lr (param_groups opt))"
proof (induction k)
  case 0
  with assms(1) show ?case by simp
next
  case (Suc k)
  let ?s = "((\<lambda>s. tick (fst s) (snd s)) ^^ k) (sch, opt)"
  from Suc.IH have f: "fst ?s = sch\<lparr>counter := k\<rparr>"
    and l: "map lr (param_groups (snd ?s)) =
           map (\<lambda>x. if k < 6 then x else if k < 11 then x * (1 / 10) else x * (1 / 10) * (1 / 10))
             (map lr (param_groups opt))"
    by simp_all
  have m: "milestones (fst ?s) = [6, 11]" "gamma (fst ?s) = 1 / 10" and c: "counter (fst ?s) = k"
    using assms(2,3) by (simp_all add: f)
  have "fst (tick (fst ?s) (snd ?s)) = sch\<lparr>counter := Suc k\<rparr>"
    using tick_multistep(1) [OF m, of "snd ?s"] by (simp add: f)
  moreover have "map lr (param_groups (snd (tick (fst ?s) (snd ?s)))) =
           map (\<lambda>x. if Suc k < 6 then x else if Suc k < 11 then x * (1 / 10)
                     else x * (1 / 10) * (1 / 10))
             (map lr (param_groups opt))"
    using tick_multistep(2) [OF m, of "snd ?s"] by (simp add: c l)
  ultimately show ?case by simp
qed

text \<open>
  C4. The decay at the loop heads and the scheduler of the spec both describe the
  sequence 0.1, 0.01 from tick 6, 0.001 from tick 11 (\<open>decay_lr_sequence\<close>,
  \<open>ticks_sequence\<close>), but no run of the notebook's loops reaches a milestone. Called
  for 15 epochs on an optimizer whose groups have the learning rate 0.1, the version
  with the decay and the version with the scheduler both raise TypeError in epoch 0,
  at their call of \<^verbatim>\<open>train_epoch\<close> with seven arguments; the loop head of epoch 0 has
  left the learning rates at 0.1, and the scheduler has not ticked.
\<close>

theorem train_model_stops_before_milestones:
  "train_model_decay example_epoch (\<lambda>_. ()) None None 15 example_run = Inl TypeError \<and>
   map lr (param_groups (decay_lr 0 (run_optimizer example_run))) = [1 / 10, 1 / 10] \<and>
   train_model_scheduled example_epoch (\<lambda>_. ()) None None 15 example_scheduled_run
     = Inl TypeError"
proof -
  have "(15::nat) = Suc 14" by simp
  then have "train_model_decay example_epoch (\<lambda>_. ()) None None 15 example_run = Inl TypeError"
    and "train_model_scheduled example_epoch (\<lambda>_. ()) None None 15 example_scheduled_run
           = Inl TypeError"
    by (simp_all only: train_model_decay_fails train_model_scheduled_fails)
  moreover have "map lr (param_groups (decay_lr 0 (run_optimizer example_run))) = [1 / 10, 1 / 10]"
    by (simp add: decay_lr_def example_run_def example_optimizer_def example_group0_def
        example_group1_def)
  ultimately show ?thesis by simp
qed

section \<open>The checkpoint dictionary\<close>






section \<open>The update rules of the spec\<close>

lemma power_less_one:
  fixes b :: real
  assumes "0 < b" and "b < 1"
  shows "0 < 1 - b ^ Suc n"
proof -
  from assms have "b ^ Suc n < 1"
    by (intro power_Suc_less_one) simp_all
  then show ?thesis by simp
qed

text \<open>
  C7. For a gradient \<open>g\<close> of the parameter's shape, RMSProp returns a running average
  \<open>V\<close> with \<open>V = alpha \<cdot> V_prev + (1 - alpha) \<cdot> g\<^sup>2\<close> element by element, where
  \<open>V_prev\<close> is 0 when the parameter has no state record yet, keeps it as
  \<open>square_avg\<close>, and returns the parameter minus \<open>lr \<cdot> g / (sqrt V + eps)\<close>. The
  average is not negative and the divisor is positive.
\<close>

theorem rmsprop_apply_rule:
  assumes "rmsprop_hyper_ok h" and "length g = length x" and "rmsprop_state_ok x st"
  shows "\<exists>x' V.
           rmsprop_apply x g st h = (x', \<lparr>square_avg = V\<rparr>) \<and>
           length V = length x \<and> length x' = length x \<and>
           (\<forall>i<length x.
              V ! i = rms_alpha h * (case st of None \<Rightarrow> 0 | Some r \<Rightarrow> square_avg r ! i)
                        + (1 - rms_alpha h) * (g ! i)\<^sup>2 \<and>
              0 \<le> V ! i \<and> 0 < sqrt (V ! i) + rms_eps h \<and>
              x' ! i = x ! i - rms_lr h * g ! i / (sqrt (V ! i) + rms_eps h))"
proof -
  let ?rec = "case st of None \<Rightarrow> rmsprop_init x | Some r \<Rightarrow> r"
  let ?V = "map2 (\<lambda>v gi. rms_alpha h * v + (1 - rms_alpha h) * gi\<^sup>2) (square_avg ?rec) g"
  let ?x' = "map2 (\<lambda>xi (gi, vi). xi - rms_lr h * gi / (sqrt vi + rms_eps h)) x (zip g ?V)"
  from assms(1) have a: "0 < rms_alpha h" "rms_alpha h < 1" "0 < rms_eps h"
    by (simp_all add: rmsprop_hyper_ok_def)
  from assms(3) have lr: "length (square_avg ?rec) = length x"
    by (simp add: rmsprop_state_ok_def rmsprop_init_def split: option.splits)
  have prev: "square_avg ?rec ! i = (case st of None \<Rightarrow> 0 | Some r \<Rightarrow> square_avg r ! i)"
    and nn: "0 \<le> square_avg ?rec ! i" if "i < length x" for i
    using that assms(3)
    by (simp_all add: rmsprop_state_ok_def rmsprop_init_def list_all_length split: option.splits)
  have e: "rmsprop_apply x g st h = (?x', \<lparr>square_avg = ?V\<rparr>)"
    by (simp add: rmsprop_apply_def Let_def)
  have lV: "length ?V = length x" using lr assms(2) by simp
  have lx: "length ?x' = length x" using lr assms(2) by simp
  have "V_ok": "?V ! i = rms_alpha h * (case st of None \<Rightarrow> 0 | Some r \<Rightarrow> square_avg r ! i)
                        + (1 - rms_alpha h) * (g ! i)\<^sup>2 \<and>
              0 \<le> ?V ! i \<and> 0 < sqrt (?V ! i) + rms_eps h \<and>
              ?x' ! i = x ! i - rms_lr h * g ! i / (sqrt (?V ! i) + rms_eps h)"
    if i: "i < length x" for i
  proof -
    have v: "?V ! i = rms_alpha h * square_avg ?rec ! i + (1 - rms_alpha h) * (g ! i)\<^sup>2"
      using i lr assms(2) by simp
    have "0 \<le> rms_alpha h * square_avg ?rec ! i"
      using a(1) nn [OF i] by simp
    moreover have "0 \<le> (1 - rms_alpha h) * (g ! i)\<^sup>2"
      using a(2) by simp
    ultimately have p: "0 \<le> ?V ! i"
      unfolding v by (rule add_nonneg_nonneg)
    then have "0 \<le> sqrt (?V ! i)" by simp
    with a(3) have q: "0 < sqrt (?V ! i) + rms_eps h" by linarith
    have "?x' ! i = x ! i - rms_lr h * g ! i / (sqrt (?V ! i) + rms_eps h)"
      using i lr lV assms(2) by simp
    with v p q prev [OF i] show ?thesis by simp
  qed
  with e lV lx show ?thesis by blast
qed

theorem rmsprop_apply_rule_witness:
  "rmsprop_hyper_ok example_rmsprop_hyper \<and> length [2 :: real] = length [1 :: real] \<and>
   rmsprop_state_ok [1] None \<and>
   (\<exists>x' V. rmsprop_apply [1] [2] None example_rmsprop_hyper = (x', \<lparr>square_avg = V\<rparr>) \<and>
      length V = 1 \<and> length x' = 1 \<and> V ! 0 = 1 \<and> x' ! 0 = 1 - 2000000 / 100000001)"
proof -
  have h: "rmsprop_hyper_ok example_rmsprop_hyper" "length [2 :: real] = length [1 :: real]"
    "rmsprop_state_ok [1] None"
    by (simp_all add: rmsprop_hyper_ok_def example_rmsprop_hyper_def rmsprop_state_ok_def)
  from rmsprop_apply_rule [OF h] obtain x' V where
    e: "rmsprop_apply [1] [2] None example_rmsprop_hyper = (x', \<lparr>square_avg = V\<rparr>)"
    and l: "length V = length [1 :: real]" "length x' = length [1 :: real]"
    and r: "\<forall>i<length [1 :: real].
        V ! i = rms_alpha example_rmsprop_hyper * (case None :: rmsprop_state option of
                    None \<Rightarrow> 0 | Some r \<Rightarrow> square_avg r ! i)
                  + (1 - rms_alpha example_rmsprop_hyper) * ([2] ! i)\<^sup>2 \<and>
        0 \<le> V ! i \<and> 0 < sqrt (V ! i) + rms_eps example_rmsprop_hyper \<and>
        x' ! i = [1] ! i - rms_lr example_rmsprop_hyper * [2] ! i
                   / (sqrt (V ! i) + rms_eps example_rmsprop_hyper)"
    by blast
  from r have v: "V ! 0 = 1"
    by (simp add: example_rmsprop_hyper_def)
  from r have "x' ! 0 = 1 - rms_lr example_rmsprop_hyper * 2
                   / (sqrt (V ! 0) + rms_eps example_rmsprop_hyper)"
    by simp
  with v have "x' ! 0 = 1 - 2000000 / 100000001"
    by (simp add: example_rmsprop_hyper_def)
  with e l v have "\<exists>x' V. rmsprop_apply [1] [2] None example_rmsprop_hyper = (x', \<lparr>square_avg = V\<rparr>) \<and>
      length V = 1 \<and> length x' = 1 \<and> V ! 0 = 1 \<and> x' ! 0 = 1 - 2000000 / 100000001"
    by (intro exI [of _ x'] exI [of _ V]) simp
  with h show ?thesis by (intro conjI)
qed

text \<open>
  C6. For a gradient \<open>g\<close> of the parameter's shape, Adam increments the step count
  of the parameter to \<open>t\<close> (to 1 when the parameter has no state record yet), computes
  \<open>M = beta1 \<cdot> M_prev + (1 - beta1) \<cdot> g\<close> and \<open>V = beta2 \<cdot> V_prev + (1 - beta2) \<cdot> g\<^sup>2\<close>
  element by element (\<open>M_prev\<close> and \<open>V_prev\<close> being 0 without a state record), keeps
  these two as \<open>exp_avg\<close> and \<open>exp_avg_sq\<close> together with \<open>t\<close>, and returns the parameter
  minus \<open>lr \<cdot> M_hat / (sqrt V_hat + eps)\<close>, where \<open>M_hat = M / (1 - beta1\<^sup>t)\<close> and
  \<open>V_hat = V / (1 - beta2\<^sup>t)\<close> enter the new value only. The divisors are positive.
\<close>

theorem adam_apply_rule:
  assumes "adam_hyper_ok h" and "length g = length x" and "adam_state_ok x st"
  shows "\<exists>x' M V t.
           adam_apply x g st h = (x', \<lparr>exp_avg = M, exp_avg_sq = V, step_count = t\<rparr>) \<and>
           t = Suc (case st of None \<Rightarrow> 0 | Some r \<Rightarrow> step_count r) \<and>
           length M = length x \<and> length V = length x \<and> length x' = length x \<and>
           0 < 1 - beta1 h ^ t \<and> 0 < 1 - beta2 h ^ t \<and>
           (\<forall>i<length x.
              M ! i = beta1 h * (case st of None \<Rightarrow> 0 | Some r \<Rightarrow> exp_avg r ! i)
                        + (1 - beta1 h) * g ! i \<and>
              V ! i = beta2 h * (case st of None \<Rightarrow> 0 | Some r \<Rightarrow> exp_avg_sq r ! i)
                        + (1 - beta2 h) * (g ! i)\<^sup>2 \<and>
              0 \<le> V ! i \<and>
              0 < sqrt (V ! i / (1 - beta2 h ^ t)) + adam_eps h \<and>
              x' ! i = x ! i - adam_lr h * (M ! i / (1 - beta1 h ^ t))
                                 / (sqrt (V ! i / (1 - beta2 h ^ t)) + adam_eps h))"
proof -
  let ?rec = "case st of None \<Rightarrow> adam_init x | Some r \<Rightarrow> r"
  let ?t = "Suc (step_count ?rec)"
  let ?M = "map2 (\<lambda>m gi. beta1 h * m + (1 - beta1 h) * gi) (exp_avg ?rec) g"
  let ?V = "map2 (\<lambda>v gi. beta2 h * v + (1 - beta2 h) * gi\<^sup>2) (exp_avg_sq ?rec) g"
  let ?Mh = "map (\<lambda>m. m / (1 - beta1 h ^ ?t)) ?M"
  let ?Vh = "map (\<lambda>v. v / (1 - beta2 h ^ ?t)) ?V"
  let ?x' = "map2 (\<lambda>xi (mh, vh). xi - adam_lr h * mh / (sqrt vh + adam_eps h)) x (zip ?Mh ?Vh)"
  from assms(1) have a: "0 < beta1 h" "beta1 h < 1" "0 < beta2 h" "beta2 h < 1" "0 < adam_eps h"
    by (simp_all add: adam_hyper_ok_def)
  from assms(3) have lm: "length (exp_avg ?rec) = length x"
    and lv: "length (exp_avg_sq ?rec) = length x"
    by (simp_all add: adam_state_ok_def adam_init_def split: option.splits)
  have t: "?t = Suc (case st of None \<Rightarrow> 0 | Some r \<Rightarrow> step_count r)"
    by (simp add: adam_init_def split: option.splits)
  have prev: "exp_avg ?rec ! i = (case st of None \<Rightarrow> 0 | Some r \<Rightarrow> exp_avg r ! i)"
    "exp_avg_sq ?rec ! i = (case st of None \<Rightarrow> 0 | Some r \<Rightarrow> exp_avg_sq r ! i)"
    "0 \<le> exp_avg_sq ?rec ! i" if "i < length x" for i
    using that assms(3)
    by (simp_all add: adam_state_ok_def adam_init_def list_all_length split: option.splits)
  have e: "adam_apply x g st h = (?x', \<lparr>exp_avg = ?M, exp_avg_sq = ?V, step_count = ?t\<rparr>)"
    by (simp add: adam_apply_def Let_def)
  have lM: "length ?M = length x" and lV: "length ?V = length x" and lx: "length ?x' = length x"
    using lm lv assms(2) by simp_all
  have d1: "0 < 1 - beta1 h ^ ?t" using a(1,2) by (rule power_less_one)
  have d2: "0 < 1 - beta2 h ^ ?t" using a(3,4) by (rule power_less_one)
  have elem: "?M ! i = beta1 h * (case st of None \<Rightarrow> 0 | Some r \<Rightarrow> exp_avg r ! i)
                        + (1 - beta1 h) * g ! i \<and>
              ?V ! i = beta2 h * (case st of None \<Rightarrow> 0 | Some r \<Rightarrow> exp_avg_sq r ! i)
                        + (1 - beta2 h) * (g ! i)\<^sup>2 \<and>
              0 \<le> ?V ! i \<and>
              0 < sqrt (?V ! i / (1 - beta2 h ^ ?t)) + adam_eps h \<and>
              ?x' ! i = x ! i - adam_lr h * (?M ! i / (1 - beta1 h ^ ?t))
                                 / (sqrt (?V ! i / (1 - beta2 h ^ ?t)) + adam_eps h)"
    if i: "i < length x" for i
  proof -
    have m: "?M ! i = beta1 h * exp_avg ?rec ! i + (1 - beta1 h) * g ! i"
      using i lm assms(2) by simp
    have v: "?V ! i = beta2 h * exp_avg_sq ?rec ! i + (1 - beta2 h) * (g ! i)\<^sup>2"
      using i lv assms(2) by simp
    have "0 \<le> beta2 h * exp_avg_sq ?rec ! i"
      using a(3) prev(3) [OF i] by simp
    moreover have "0 \<le> (1 - beta2 h) * (g ! i)\<^sup>2"
      using a(4) by simp
    ultimately have p: "0 \<le> ?V ! i"
      unfolding v by (rule add_nonneg_nonneg)
    with d2 have "0 \<le> ?V ! i / (1 - beta2 h ^ ?t)" by simp
    then have "0 \<le> sqrt (?V ! i / (1 - beta2 h ^ ?t))" by simp
    with a(5) have q: "0 < sqrt (?V ! i / (1 - beta2 h ^ ?t)) + adam_eps h" by linarith
    have x: "?x' ! i = x ! i - adam_lr h * (?M ! i / (1 - beta1 h ^ ?t))
                                 / (sqrt (?V ! i / (1 - beta2 h ^ ?t)) + adam_eps h)"
      using i lM lV by simp
    from m v prev(1,2) [OF i] p q x show ?thesis by simp
  qed
  from e t lM lV lx d1 d2 elem show ?thesis
    by (intro exI [of _ ?x'] exI [of _ ?M] exI [of _ ?V] exI [of _ ?t]) simp
qed

theorem adam_apply_rule_witness:
  "adam_hyper_ok example_adam_hyper \<and> length [2 :: real] = length [1 :: real] \<and>
   adam_state_ok [1] None \<and>
   (\<exists>x' M V t.
      adam_apply [1] [2] None example_adam_hyper
        = (x', \<lparr>exp_avg = M, exp_avg_sq = V, step_count = t\<rparr>) \<and>
      t = 1 \<and> M ! 0 = 1 \<and> V ! 0 = 1 \<and> x' ! 0 = 1 - 200000 / 200000001)"
proof -
  have h: "adam_hyper_ok example_adam_hyper" "length [2 :: real] = length [1 :: real]"
    "adam_state_ok [1] None"
    by (simp_all add: adam_hyper_ok_def example_adam_hyper_def adam_state_ok_def)
  from adam_apply_rule [OF h] obtain x' M V t where
    e: "adam_apply [1] [2] None example_adam_hyper
          = (x', \<lparr>exp_avg = M, exp_avg_sq = V, step_count = t\<rparr>)"
    and t: "t = Suc (case None :: adam_state option of None \<Rightarrow> 0 | Some r \<Rightarrow> step_count r)"
    and r: "\<forall>i<length [1 :: real].
        M ! i = beta1 example_adam_hyper * (case None :: adam_state option of
                    None \<Rightarrow> 0 | Some r \<Rightarrow> exp_avg r ! i)
                  + (1 - beta1 example_adam_hyper) * [2] ! i \<and>
        V ! i = beta2 example_adam_hyper * (case None :: adam_state option of
                    None \<Rightarrow> 0 | Some r \<Rightarrow> exp_avg_sq r ! i)
                  + (1 - beta2 example_adam_hyper) * ([2] ! i)\<^sup>2 \<and>
        0 \<le> V ! i \<and>
        0 < sqrt (V ! i / (1 - beta2 example_adam_hyper ^ t)) + adam_eps example_adam_hyper \<and>
        x' ! i = [1] ! i - adam_lr example_adam_hyper * (M ! i / (1 - beta1 example_adam_hyper ^ t))
                   / (sqrt (V ! i / (1 - beta2 example_adam_hyper ^ t))
                      + adam_eps example_adam_hyper)"
    by blast
  from t have t1: "t = 1" by simp
  from r have m: "M ! 0 = 1" and v: "V ! 0 = 1"
    by (simp_all add: example_adam_hyper_def)
  from r have "x' ! 0 = 1 - adam_lr example_adam_hyper * (M ! 0 / (1 - beta1 example_adam_hyper ^ t))
                   / (sqrt (V ! 0 / (1 - beta2 example_adam_hyper ^ t))
                      + adam_eps example_adam_hyper)"
    by simp
  with m v t1 have "x' ! 0 = 1 - 200000 / 200000001"
    by (simp add: example_adam_hyper_def)
  with e t1 m v have "\<exists>x' M V t.
      adam_apply [1] [2] None example_adam_hyper
        = (x', \<lparr>exp_avg = M, exp_avg_sq = V, step_count = t\<rparr>) \<and>
      t = 1 \<and> M ! 0 = 1 \<and> V ! 0 = 1 \<and> x' ! 0 = 1 - 200000 / 200000001"
    by (intro exI [of _ x'] exI [of _ M] exI [of _ V] exI [of _ t]) simp
  with h show ?thesis by (intro conjI)
qed

end
